theory Spec2Isabelle
  imports Main
begin

section \<open>Python values\<close>

text \<open>
  The registry of \<^verbatim>\<open>standards_registry.py\<close> works on documents parsed by
  \<^verbatim>\<open>yaml.safe_load\<close> and \<^verbatim>\<open>json.load\<close>. A parsed document is a Python value: None, a
  bool, an int, a str, a list, or a dict whose keys are hashable scalars. Floating-point
  numbers, dates and byte strings are outside this model. Text is ASCII: a \<^typ>\<open>string\<close>
  stands for a Python str whose code points are below 128.
\<close>

datatype error = TypeError | AttributeError | KeyError | IndexError | OSError | ParseError

datatype key = KNone | KBool bool | KInt int | KStr string

datatype pyval =
    VNone
  | VBool bool
  | VInt int
  | VStr string
  | VList "pyval list"
  | VDict "(key \<times> pyval) list"

text \<open>Sequencing of computations that may raise: the first exception is the result.\<close>

definition ebind :: "error + 'a \<Rightarrow> ('a \<Rightarrow> error + 'b) \<Rightarrow> error + 'b" where
  "ebind m f = (case m of Inl e \<Rightarrow> Inl e | Inr x \<Rightarrow> f x)"

fun emap :: "('a \<Rightarrow> error + 'b) \<Rightarrow> 'a list \<Rightarrow> error + 'b list" where
  "emap f [] = Inr []"
| "emap f (x # xs) =
     (case f x of
        Inl e \<Rightarrow> Inl e
      | Inr y \<Rightarrow> (case emap f xs of Inl e \<Rightarrow> Inl e | Inr ys \<Rightarrow> Inr (y # ys)))"

text \<open>Truth value of a Python object, as \<^verbatim>\<open>if x\<close> and \<^verbatim>\<open>not x\<close> test it.\<close>

fun truthy :: "pyval \<Rightarrow> bool" where
  "truthy VNone = False"
| "truthy (VBool b) = b"
| "truthy (VInt i) = (i \<noteq> 0)"
| "truthy (VStr s) = (s \<noteq> [])"
| "truthy (VList xs) = (xs \<noteq> [])"
| "truthy (VDict kvs) = (kvs \<noteq> [])"

text \<open>
  Dictionary keys. Python compares keys with \<^verbatim>\<open>==\<close>, under which \<^verbatim>\<open>True == 1\<close> and
  \<^verbatim>\<open>False == 0\<close>; \<open>canon\<close> maps a key to the representative of its class. Lists and dicts
  are unhashable.
\<close>

fun canon :: "key \<Rightarrow> key" where
  "canon (KBool b) = KInt (if b then 1 else 0)"
| "canon k = k"

definition key_eq :: "key \<Rightarrow> key \<Rightarrow> bool" where
  "key_eq a b = (canon a = canon b)"

fun hash_key :: "pyval \<Rightarrow> error + key" where
  "hash_key VNone = Inr KNone"
| "hash_key (VBool b) = Inr (KBool b)"
| "hash_key (VInt i) = Inr (KInt i)"
| "hash_key (VStr s) = Inr (KStr s)"
| "hash_key (VList xs) = Inl TypeError"
| "hash_key (VDict kvs) = Inl TypeError"

fun val_of_key :: "key \<Rightarrow> pyval" where
  "val_of_key KNone = VNone"
| "val_of_key (KBool b) = VBool b"
| "val_of_key (KInt i) = VInt i"
| "val_of_key (KStr s) = VStr s"

text \<open>
  A dict is an association list in insertion order. Assigning to a key that is present
  replaces the value and keeps the key object and its position.
\<close>

fun dict_get :: "(key \<times> 'v) list \<Rightarrow> key \<Rightarrow> 'v option" where
  "dict_get [] k = None"
| "dict_get ((k', v) # kvs) k = (if key_eq k' k then Some v else dict_get kvs k)"

fun dict_set :: "(key \<times> 'v) list \<Rightarrow> key \<Rightarrow> 'v \<Rightarrow> (key \<times> 'v) list" where
  "dict_set [] k v = [(k, v)]"
| "dict_set ((k', v') # kvs) k v =
     (if key_eq k' k then (k', v) # kvs else (k', v') # dict_set kvs k v)"

text \<open>\<^verbatim>\<open>dict(pairs)\<close>: the pairs are inserted from left to right; each key is hashed.\<close>

fun dict_update :: "(key \<times> pyval) list \<Rightarrow> (pyval \<times> pyval) list \<Rightarrow> error + (key \<times> pyval) list" where
  "dict_update d [] = Inr d"
| "dict_update d ((k, v) # kvs) =
     (case hash_key k of Inl e \<Rightarrow> Inl e | Inr k' \<Rightarrow> dict_update (dict_set d k' v) kvs)"

definition py_dict :: "(pyval \<times> pyval) list \<Rightarrow> error + pyval" where
  "py_dict kvs = ebind (dict_update [] kvs) (\<lambda>d. Inr (VDict d))"

text \<open>\<^verbatim>\<open>sub in s\<close> on two strings: \<open>sub\<close> occurs in \<open>s\<close> as a contiguous substring.\<close>

fun starts_with :: "string \<Rightarrow> string \<Rightarrow> bool" where
  "starts_with [] s = True"
| "starts_with (c # cs) [] = False"
| "starts_with (c # cs) (d # ds) = (c = d \<and> starts_with cs ds)"

fun str_contains :: "string \<Rightarrow> string \<Rightarrow> bool" where
  "str_contains sub [] = (sub = [])"
| "str_contains sub (c # cs) = (starts_with sub (c # cs) \<or> str_contains sub cs)"

text \<open>
  The operations of the source on a value, with a string as key: \<^verbatim>\<open>k in x\<close>, \<^verbatim>\<open>x[k]\<close>,
  \<^verbatim>\<open>x.get(k, default)\<close>, and iteration \<^verbatim>\<open>for y in x\<close>.
\<close>

fun py_in :: "string \<Rightarrow> pyval \<Rightarrow> error + bool" where
  "py_in k (VDict kvs) = Inr (dict_get kvs (KStr k) \<noteq> None)"
| "py_in k (VList xs) = Inr (VStr k \<in> set xs)"
| "py_in k (VStr s) = Inr (str_contains k s)"
| "py_in k VNone = Inl TypeError"
| "py_in k (VBool b) = Inl TypeError"
| "py_in k (VInt i) = Inl TypeError"

fun py_getitem :: "pyval \<Rightarrow> string \<Rightarrow> error + pyval" where
  "py_getitem (VDict kvs) k =
     (case dict_get kvs (KStr k) of None \<Rightarrow> Inl KeyError | Some v \<Rightarrow> Inr v)"
| "py_getitem x k = Inl TypeError"

fun py_get :: "pyval \<Rightarrow> string \<Rightarrow> pyval \<Rightarrow> error + pyval" where
  "py_get (VDict kvs) k d = Inr (case dict_get kvs (KStr k) of None \<Rightarrow> d | Some v \<Rightarrow> v)"
| "py_get x k d = Inl AttributeError"

fun py_iter :: "pyval \<Rightarrow> error + pyval list" where
  "py_iter (VList xs) = Inr xs"
| "py_iter (VDict kvs) = Inr (map (\<lambda>kv. val_of_key (fst kv)) kvs)"
| "py_iter (VStr s) = Inr (map (\<lambda>c. VStr [c]) s)"
| "py_iter x = Inl TypeError"

section \<open>The record normalizer\<close>

text \<open>
  \<^verbatim>\<open>StandardsRegistry._get_data_records\<close>. The nested and the flat form return the value
  stored under \<^verbatim>\<open>"data"\<close> as it is; the columnar form builds one dict per record.
\<close>

definition zip_record :: "pyval list \<Rightarrow> pyval \<Rightarrow> error + pyval" where
  "zip_record fields record = ebind (py_iter record) (\<lambda>vs. py_dict (zip fields vs))"

definition columnar :: "pyval \<Rightarrow> error + pyval" where
  "columnar data =
     ebind (py_get data ''fields'' (VList [])) (\<lambda>fs.
     ebind (py_iter fs) (\<lambda>fl.
     ebind (emap (\<lambda>f. py_getitem f ''id'') fl) (\<lambda>fields.
       if fields = [] then Inr (VList [])
       else
         ebind (py_getitem data ''records'') (\<lambda>recs.
         ebind (py_iter recs) (\<lambda>rl.
         ebind (emap (zip_record fields) rl) (\<lambda>rs. Inr (VList rs)))))))"

definition is_nested :: "pyval \<Rightarrow> error + bool" where
  "is_nested data =
     ebind (py_in ''standard'' data) (\<lambda>b.
       if b then ebind (py_getitem data ''standard'') (\<lambda>st. py_in ''data'' st)
       else Inr False)"

definition get_data_records :: "pyval \<Rightarrow> error + pyval" where
  "get_data_records data =
     (if \<not> truthy data then Inr (VList [])
      else
        ebind (is_nested data) (\<lambda>nested.
          if nested then
            ebind (py_getitem data ''standard'') (\<lambda>st. py_getitem st ''data'')
          else
            ebind (py_in ''data'' data) (\<lambda>flat.
              if flat then py_getitem data ''data''
              else
                ebind (py_in ''records'' data) (\<lambda>col.
                  if col then columnar data else Inr (VList [])))))"

section \<open>Strings\<close>

text \<open>\<^verbatim>\<open>str.lower\<close> and \<^verbatim>\<open>str.upper\<close> on ASCII text: only the letters A to Z and a to z change.\<close>

definition lower_char :: "char \<Rightarrow> char" where
  "lower_char c =
     (let n = (of_char c :: nat) in if 65 \<le> n \<and> n \<le> 90 then char_of (n + 32) else c)"

definition upper_char :: "char \<Rightarrow> char" where
  "upper_char c =
     (let n = (of_char c :: nat) in if 97 \<le> n \<and> n \<le> 122 then char_of (n - 32) else c)"

definition lower :: "string \<Rightarrow> string" where
  "lower s = map lower_char s"

definition upper :: "string \<Rightarrow> string" where
  "upper s = map upper_char s"

definition is_ascii :: "string \<Rightarrow> bool" where
  "is_ascii s = list_all (\<lambda>c. (of_char c :: nat) < 128) s"

text \<open>\<^verbatim>\<open>sep.join(parts)\<close>.\<close>

fun join :: "string \<Rightarrow> string list \<Rightarrow> string" where
  "join sep [] = []"
| "join sep [x] = x"
| "join sep (x # y # ys) = x @ sep @ join sep (y # ys)"

text \<open>\<^verbatim>\<open>s.split(sep)\<close> for a separator of one character: never an empty list.\<close>

fun split :: "char \<Rightarrow> string \<Rightarrow> string list" where
  "split sep [] = [[]]"
| "split sep (c # cs) =
     (if c = sep then [] # split sep cs
      else (case split sep cs of [] \<Rightarrow> [[c]] | p # ps \<Rightarrow> (c # p) # ps))"

text \<open>
  \<^verbatim>\<open>s.replace(old, new)\<close>: every occurrence of \<open>old\<close>, scanning from the left,
  occurrences not overlapping. The first argument of \<open>replace_scan\<close> holds the characters
  of a matched occurrence that are still to be passed over. With an empty \<open>old\<close>, Python
  puts \<open>new\<close> before every character and at the end.
\<close>

fun replace_scan :: "string \<Rightarrow> string \<Rightarrow> string \<Rightarrow> string \<Rightarrow> string" where
  "replace_scan skip old new [] = []"
| "replace_scan (x # skip) old new (c # cs) = replace_scan skip old new cs"
| "replace_scan [] old new (c # cs) =
     (if starts_with old (c # cs) then new @ replace_scan (tl old) old new cs
      else c # replace_scan [] old new cs)"

definition replace :: "string \<Rightarrow> string \<Rightarrow> string \<Rightarrow> string" where
  "replace old new s =
     (if old = [] then new @ concat (map (\<lambda>c. c # new) s) else replace_scan [] old new s)"

text \<open>\<^verbatim>\<open>str(i)\<close> for an int: decimal digits, with a minus sign when negative.\<close>

fun str_nat_from :: "nat \<Rightarrow> nat \<Rightarrow> string" where
  "str_nat_from 0 n = [char_of (48 + n mod 10)]"
| "str_nat_from (Suc fuel) n =
     (if n < 10 then [char_of (48 + n)]
      else str_nat_from fuel (n div 10) @ [char_of (48 + n mod 10)])"

definition str_int :: "int \<Rightarrow> string" where
  "str_int i = (if i < 0 then CHR ''-'' # str_nat_from (nat (- i)) (nat (- i))
                else str_nat_from (nat i) (nat i))"

text \<open>
  \<^verbatim>\<open>repr(s)\<close> for a str: single quotes, unless the text has a single quote and no double
  quote; the quote and the backslash are escaped, control characters are written as
  escapes.
\<close>

definition hex_digit :: "nat \<Rightarrow> char" where
  "hex_digit n = (if n < 10 then char_of (48 + n) else char_of (87 + n))"

definition escape_char :: "char \<Rightarrow> char \<Rightarrow> string" where
  "escape_char q c =
     (let n = (of_char c :: nat) in
      if c = q \<or> n = 92 then [CHR 0x5C, c]
      else if n = 9 then [CHR 0x5C, CHR ''t'']
      else if n = 10 then [CHR 0x5C, CHR ''n'']
      else if n = 13 then [CHR 0x5C, CHR ''r'']
      else if n < 32 \<or> n = 127 then [CHR 0x5C, CHR ''x'', hex_digit (n div 16), hex_digit (n mod 16)]
      else [c])"

definition repr_str :: "string \<Rightarrow> string" where
  "repr_str s =
     (let q = (if CHR 0x27 \<in> set s \<and> CHR 0x22 \<notin> set s then CHR 0x22 else CHR 0x27)
      in q # concat (map (escape_char q) s) @ [q])"

fun repr_key :: "key \<Rightarrow> string" where
  "repr_key KNone = ''None''"
| "repr_key (KBool b) = (if b then ''True'' else ''False'')"
| "repr_key (KInt i) = str_int i"
| "repr_key (KStr s) = repr_str s"

text \<open>\<^verbatim>\<open>repr(x)\<close> and \<^verbatim>\<open>str(x)\<close>: they differ on a str only.\<close>

fun repr :: "pyval \<Rightarrow> string" where
  "repr VNone = ''None''"
| "repr (VBool b) = (if b then ''True'' else ''False'')"
| "repr (VInt i) = str_int i"
| "repr (VStr s) = repr_str s"
| "repr (VList xs) = ''['' @ join '', '' (map repr xs) @ '']''"
| "repr (VDict kvs) =
     ''{'' @ join '', '' (map (\<lambda>kv. repr_key (fst kv) @ '': '' @ repr (snd kv)) kvs) @ ''}''"

fun str :: "pyval \<Rightarrow> string" where
  "str (VStr s) = s"
| "str x = repr x"

section \<open>Files\<close>

text \<open>
  What the registry asks of \<^verbatim>\<open>pathlib\<close>, of the file system and of the two parsers. A path
  is a value of type \<open>'p\<close>; \<open>path_join\<close> is the operator \<^verbatim>\<open>/\<close> of \<^verbatim>\<open>Path\<close>, \<open>path_exists\<close>
  is \<^verbatim>\<open>Path.exists\<close>, \<open>path_suffix\<close> is \<^verbatim>\<open>Path.suffix\<close>. \<open>open_yaml\<close> is
  \<^verbatim>\<open>with open(p) as f: yaml.safe_load(f)\<close> and \<open>open_json\<close> is the same with \<^verbatim>\<open>json.load\<close>:
  the document of the file, or the exception of \<^verbatim>\<open>open\<close> or of the parser.
\<close>

record 'p env =
  path_join :: "'p \<Rightarrow> string \<Rightarrow> 'p"
  path_exists :: "'p \<Rightarrow> bool"
  path_suffix :: "'p \<Rightarrow> string"
  open_yaml :: "'p \<Rightarrow> error + pyval"
  open_json :: "'p \<Rightarrow> error + pyval"

section \<open>The registry\<close>

record Standard =
  std_id :: pyval
  title :: pyval
  description :: pyval
  path :: pyval
  version :: pyval
  maintainer :: pyval
  last_updated :: pyval
  source :: pyval
  tags :: pyval

record 'p registry =
  registry_path :: 'p
  standards :: "(key \<times> Standard) list"
  data_cache :: "string \<rightharpoonup> pyval"

subsection \<open>The manifest\<close>

text \<open>The constructor call of \<^verbatim>\<open>_load_registry\<close>: every field is read with \<^verbatim>\<open>item.get\<close>.\<close>

definition standard_of_item :: "pyval \<Rightarrow> error + Standard" where
  "standard_of_item item =
     ebind (py_get item ''id'' (VStr [])) (\<lambda>i.
     ebind (py_get item ''title'' (VStr [])) (\<lambda>t.
     ebind (py_get item ''description'' (VStr [])) (\<lambda>d.
     ebind (py_get item ''path'' (VStr [])) (\<lambda>p.
     ebind (py_get item ''version'' (VStr [])) (\<lambda>v.
     ebind (py_get item ''maintainer'' (VStr [])) (\<lambda>m.
     ebind (py_get item ''last_updated'' (VStr [])) (\<lambda>l.
     ebind (py_get item ''source'' VNone) (\<lambda>s.
     ebind (py_get item ''tags'' (VList [])) (\<lambda>g.
       Inr \<lparr>std_id = i, title = t, description = d, path = p, version = v,
            maintainer = m, last_updated = l, source = s, tags = g\<rparr>)))))))))"

text \<open>The loop over the manifest entries: \<^verbatim>\<open>self.standards[standard.id] = standard\<close>.\<close>

fun add_items :: "(key \<times> Standard) list \<Rightarrow> pyval list \<Rightarrow> error + (key \<times> Standard) list" where
  "add_items stds [] = Inr stds"
| "add_items stds (item # items) =
     (case standard_of_item item of
        Inl e \<Rightarrow> Inl e
      | Inr standard \<Rightarrow>
          (case hash_key (std_id standard) of
             Inl e \<Rightarrow> Inl e
           | Inr k \<Rightarrow> add_items (dict_set stds k standard) items))"

definition load_registry :: "'p env \<Rightarrow> 'p \<Rightarrow> error + (key \<times> Standard) list" where
  "load_registry env root =
     (let registry_file = path_join env root ''registry.yaml'' in
      if \<not> path_exists env registry_file then Inr []
      else
        ebind (open_yaml env registry_file) (\<lambda>registry_data.
        ebind (py_get registry_data ''registry'' (VList [])) (\<lambda>entries.
        ebind (py_iter entries) (\<lambda>items. add_items [] items))))"

text \<open>\<^verbatim>\<open>StandardsRegistry.__init__\<close>.\<close>

definition init :: "'p env \<Rightarrow> 'p \<Rightarrow> error + 'p registry" where
  "init env root =
     ebind (load_registry env root) (\<lambda>stds.
       Inr \<lparr>registry_path = root, standards = stds, data_cache = Map.empty\<rparr>)"

definition get_standard :: "'p registry \<Rightarrow> string \<Rightarrow> Standard option" where
  "get_standard reg standard_id = dict_get (standards reg) (KStr standard_id)"

definition list_standards :: "'p registry \<Rightarrow> Standard list" where
  "list_standards reg = map snd (standards reg)"

subsection \<open>Loading the data of a standard\<close>

text \<open>
  The loop over the two files of \<^verbatim>\<open>school_boards\<close>: a file that does not exist, or whose
  records are empty, is passed over.
\<close>

fun try_json_paths :: "'p env \<Rightarrow> 'p list \<Rightarrow> error + pyval option" where
  "try_json_paths env [] = Inr None"
| "try_json_paths env (json_path # rest) =
     (if \<not> path_exists env json_path then try_json_paths env rest
      else
        (case open_json env json_path of
           Inl e \<Rightarrow> Inl e
         | Inr data \<Rightarrow>
             (case get_data_records data of
                Inl e \<Rightarrow> Inl e
              | Inr records \<Rightarrow>
                  if truthy records then Inr (Some data)
                  else try_json_paths env rest)))"

text \<open>Lines 95 to 106: the file found is parsed by its suffix and checked.\<close>

definition load_found :: "'p env \<Rightarrow> 'p \<Rightarrow> error + pyval option" where
  "load_found env found_path =
     ebind (if path_suffix env found_path = ''.yaml'' then open_yaml env found_path
            else open_json env found_path) (\<lambda>data.
       if \<not> truthy data then Inr None
       else
         ebind (get_data_records data) (\<lambda>records.
           if \<not> truthy records then Inr None else Inr (Some data)))"

definition possible_paths :: "'p env \<Rightarrow> 'p \<Rightarrow> string \<Rightarrow> 'p list" where
  "possible_paths env root p =
     (let data_path = path_join env root p;
          path_parts = split CHR ''/'' p;
          filename = last path_parts;
          dir_path = join ''/'' (butlast path_parts)
      in [data_path,
          path_join env (path_join env root dir_path) (''20251030_'' @ filename),
          path_join env (path_join env root dir_path) (replace ''.yaml'' ''.json'' filename)])"

definition json_paths :: "'p env \<Rightarrow> 'p \<Rightarrow> 'p list" where
  "json_paths env root =
     [path_join env (path_join env root ''data'') ''school_boards_with_acronyms.json'',
      path_join env (path_join env root ''data'') ''20251030_school_boards.json'']"

definition resolve :: "'p env \<Rightarrow> 'p \<Rightarrow> string \<Rightarrow> string \<Rightarrow> error + pyval option" where
  "resolve env root standard_id p =
     (if standard_id = ''school_boards'' then try_json_paths env (json_paths env root)
      else
        (case find (path_exists env) (possible_paths env root p) of
           None \<Rightarrow> Inr None
         | Some found_path \<Rightarrow> load_found env found_path))"

text \<open>\<^verbatim>\<open>self.data_cache[standard_id] = data\<close>, on the paths that return a document.\<close>

definition store :: "'p registry \<Rightarrow> string \<Rightarrow> error + pyval option \<Rightarrow> (error + pyval option) \<times> 'p registry" where
  "store reg standard_id r =
     (case r of
        Inr (Some data) \<Rightarrow> (r, reg\<lparr>data_cache := (data_cache reg)(standard_id \<mapsto> data)\<rparr>)
      | _ \<Rightarrow> (r, reg))"

text \<open>
  \<^verbatim>\<open>load_standard_data\<close>. The result is the document, \<open>None\<close> for Python's \<^verbatim>\<open>None\<close>, or the
  exception raised; the registry is returned with its cache. A path of the manifest
  that is not a str makes \<^verbatim>\<open>self.registry_path / standard.path\<close> raise.
\<close>

definition load_standard_data :: "'p env \<Rightarrow> 'p registry \<Rightarrow> string \<Rightarrow> (error + pyval option) \<times> 'p registry" where
  "load_standard_data env reg standard_id =
     (case data_cache reg standard_id of
        Some data \<Rightarrow> (Inr (Some data), reg)
      | None \<Rightarrow>
          (case get_standard reg standard_id of
             None \<Rightarrow> (Inr None, reg)
           | Some standard \<Rightarrow>
               (case path standard of
                  VStr p \<Rightarrow> store reg standard_id (resolve env (registry_path reg) standard_id p)
                | _ \<Rightarrow> (Inl TypeError, reg))))"

subsection \<open>Search and statistics\<close>

fun py_values :: "pyval \<Rightarrow> error + pyval list" where
  "py_values (VDict kvs) = Inr (map snd kvs)"
| "py_values x = Inl AttributeError"

fun py_keys :: "pyval \<Rightarrow> error + key list" where
  "py_keys (VDict kvs) = Inr (map fst kvs)"
| "py_keys x = Inl AttributeError"

fun py_len :: "pyval \<Rightarrow> error + nat" where
  "py_len (VList xs) = Inr (length xs)"
| "py_len (VDict kvs) = Inr (length kvs)"
| "py_len (VStr s) = Inr (length s)"
| "py_len x = Inl TypeError"

text \<open>\<^verbatim>\<open>x[0]\<close>.\<close>

fun py_first :: "pyval \<Rightarrow> error + pyval" where
  "py_first (VList xs) = (case xs of [] \<Rightarrow> Inl IndexError | x # _ \<Rightarrow> Inr x)"
| "py_first (VDict kvs) = (case dict_get kvs (KInt 0) of None \<Rightarrow> Inl KeyError | Some v \<Rightarrow> Inr v)"
| "py_first (VStr s) = (case s of [] \<Rightarrow> Inl IndexError | c # _ \<Rightarrow> Inr (VStr [c]))"
| "py_first x = Inl TypeError"

text \<open>The text a record is searched in: \<^verbatim>\<open>" ".join(str(v) for v in r.values() if v)\<close>.\<close>

definition record_text :: "pyval list \<Rightarrow> string" where
  "record_text vs = join '' '' (map str (filter truthy vs))"

definition matches :: "string \<Rightarrow> pyval \<Rightarrow> error + bool" where
  "matches query_lower r =
     ebind (py_values r) (\<lambda>vs. Inr (str_contains query_lower (lower (record_text vs))))"

fun efilter :: "('a \<Rightarrow> error + bool) \<Rightarrow> 'a list \<Rightarrow> error + 'a list" where
  "efilter f [] = Inr []"
| "efilter f (x # xs) =
     (case f x of
        Inl e \<Rightarrow> Inl e
      | Inr b \<Rightarrow>
          (case efilter f xs of
             Inl e \<Rightarrow> Inl e
           | Inr ys \<Rightarrow> Inr (if b then x # ys else ys)))"

definition search_records :: "'p env \<Rightarrow> 'p registry \<Rightarrow> string \<Rightarrow> string \<Rightarrow> (error + pyval list) \<times> 'p registry" where
  "search_records env reg standard_id query =
     (case load_standard_data env reg standard_id of
        (Inl e, reg') \<Rightarrow> (Inl e, reg')
      | (Inr None, reg') \<Rightarrow> (Inr [], reg')
      | (Inr (Some data), reg') \<Rightarrow>
          (if \<not> truthy data then Inr []
           else
             ebind (get_data_records data) (\<lambda>records.
               if \<not> truthy records then Inr []
               else
                 (let query_lower = lower query in
                  ebind (py_iter records) (\<lambda>rs. efilter (matches query_lower) rs))),
           reg'))"

text \<open>The result of \<^verbatim>\<open>get_statistics\<close> is a dict: empty, or with the two entries.\<close>

definition get_statistics :: "'p env \<Rightarrow> 'p registry \<Rightarrow> string \<Rightarrow> (error + (key \<times> pyval) list) \<times> 'p registry" where
  "get_statistics env reg standard_id =
     (case load_standard_data env reg standard_id of
        (Inl e, reg') \<Rightarrow> (Inl e, reg')
      | (Inr None, reg') \<Rightarrow> (Inr [], reg')
      | (Inr (Some data), reg') \<Rightarrow>
          (if \<not> truthy data then Inr []
           else
             ebind (get_data_records data) (\<lambda>records.
               if \<not> truthy records then Inr []
               else
                 ebind (py_len records) (\<lambda>n.
                 ebind (py_first records) (\<lambda>r.
                 ebind (py_keys r) (\<lambda>ks.
                   Inr [(KStr ''total_records'', VInt (int n)),
                        (KStr ''fields'', VList (map val_of_key ks))])))),
           reg'))"

subsection \<open>Registries that a program can hold\<close>

text \<open>
  A registry object is built by the constructor, and changed only by
  \<^verbatim>\<open>load_standard_data\<close> (the other two queries change it through that call). The files
  may change between two calls, so each step has an environment of its own.
\<close>

inductive reachable :: "'p registry \<Rightarrow> bool" where
  reach_init: "init env root = Inr reg \<Longrightarrow> reachable reg"
| reach_load: "reachable reg \<Longrightarrow> load_standard_data env reg standard_id = (r, reg') \<Longrightarrow> reachable reg'"

section \<open>The specification's reading of a search match\<close>

text \<open>
  The specification describes the searched text as the string representations of all
  non-null values, joined by spaces. \<open>spec_record_text\<close> follows these words; the source's
  text is \<open>record_text\<close>.
\<close>

definition spec_record_text :: "pyval list \<Rightarrow> string" where
  "spec_record_text vs = join '' '' (map str (filter (\<lambda>v. v \<noteq> VNone) vs))"

definition spec_matches :: "string \<Rightarrow> (key \<times> pyval) list \<Rightarrow> bool" where
  "spec_matches query kvs = str_contains (lower query) (lower (spec_record_text (map snd kvs)))"

section \<open>Example files\<close>

text \<open>
  A small file system for the examples: a path is its text, joined with a slash; the
  disk lists the files with the documents they parse to (in either format); the suffix
  of a path is read off its last five characters, which is right for the names used here.
\<close>

definition ex_env :: "(string \<times> pyval) list \<Rightarrow> string env" where
  "ex_env disk =
     \<lparr>path_join = (\<lambda>p s. p @ ''/'' @ s),
      path_exists = (\<lambda>p. map_of disk p \<noteq> None),
      path_suffix = (\<lambda>p. drop (length p - 5) p),
      open_yaml = (\<lambda>p. case map_of disk p of None \<Rightarrow> Inl OSError | Some d \<Rightarrow> Inr d),
      open_json = (\<lambda>p. case map_of disk p of None \<Rightarrow> Inl OSError | Some d \<Rightarrow> Inr d)\<rparr>"

definition ex_item :: "string \<Rightarrow> string \<Rightarrow> string \<Rightarrow> pyval" where
  "ex_item i t p = VDict [(KStr ''id'', VStr i), (KStr ''title'', VStr t), (KStr ''path'', VStr p)]"

definition ex_std :: "string \<Rightarrow> string \<Rightarrow> string \<Rightarrow> Standard" where
  "ex_std i t p =
     \<lparr>std_id = VStr i, title = VStr t, description = VStr [], path = VStr p,
      version = VStr [], maintainer = VStr [], last_updated = VStr [],
      source = VNone, tags = VList []\<rparr>"

definition ex_manifest :: pyval where
  "ex_manifest =
     VDict [(KStr ''registry'',
             VList [ex_item ''codes'' ''Codes'' ''data/codes.yaml'',
                    ex_item ''school_boards'' ''Boards'' ''data/school_boards.yaml''])]"

definition ex_manifest_dup :: pyval where
  "ex_manifest_dup =
     VDict [(KStr ''registry'',
             VList [ex_item ''codes'' ''First'' ''data/a.yaml'',
                    ex_item ''units'' ''Units'' ''data/u.yaml'',
                    ex_item ''codes'' ''Second'' ''data/b.yaml''])]"

definition ex_reg :: "string registry" where
  "ex_reg =
     \<lparr>registry_path = ''root'',
      standards = [(KStr ''codes'', ex_std ''codes'' ''Codes'' ''data/codes.yaml''),
                   (KStr ''school_boards'', ex_std ''school_boards'' ''Boards'' ''data/school_boards.yaml'')],
      data_cache = Map.empty\<rparr>"

definition ex_records :: "pyval list" where
  "ex_records = [VDict [(KStr ''name'', VStr ''abcdef'')], VDict [(KStr ''name'', VStr ''xyz'')]]"

definition ex_flat :: pyval where
  "ex_flat = VDict [(KStr ''data'', VList ex_records)]"

definition ex_nested :: pyval where
  "ex_nested = VDict [(KStr ''standard'', VDict [(KStr ''data'', VList ex_records)])]"

definition ex_empty :: pyval where
  "ex_empty = VDict [(KStr ''data'', VList [])]"

definition ex_zero :: pyval where
  "ex_zero = VDict [(KStr ''data'', VList [VDict [(KStr ''code'', VInt 0)]])]"

definition ex_columnar :: pyval where
  "ex_columnar =
     VDict [(KStr ''fields'', VList [VDict [(KStr ''id'', VStr ''a'')], VDict [(KStr ''id'', VStr ''b'')]]),
            (KStr ''records'', VList [VList [VInt 1, VStr ''x''], VList [VInt 2, VStr ''y'']])]"

definition ex_null_standard :: pyval where
  "ex_null_standard =
     VDict [(KStr ''standard'', VNone), (KStr ''data'', VList [VDict [(KStr ''a'', VInt 1)]])]"

definition ex_disk :: "(string \<times> pyval) list" where
  "ex_disk = [(''root/registry.yaml'', ex_manifest), (''root/data/codes.yaml'', ex_flat)]"

definition ex_reg_dup :: "string registry" where
  "ex_reg_dup =
     \<lparr>registry_path = ''root'',
      standards = [(KStr ''codes'', ex_std ''codes'' ''Second'' ''data/b.yaml''),
                   (KStr ''units'', ex_std ''units'' ''Units'' ''data/u.yaml'')],
      data_cache = Map.empty\<rparr>"

text \<open>
  The specification describes the third candidate as the file name with its extension
  changed from \<^verbatim>\<open>.yaml\<close> to \<^verbatim>\<open>.json\<close>. \<open>spec_json_name\<close> follows these words; the source's
  name is \<open>replace ''.yaml'' ''.json''\<close> of the file name.
\<close>

definition spec_json_name :: "string \<Rightarrow> string" where
  "spec_json_name filename =
     (if 5 \<le> length filename \<and> drop (length filename - 5) filename = ''.yaml''
      then take (length filename - 5) filename @ ''.json'' else filename)"

definition ex_reg_x :: "string registry" where
  "ex_reg_x =
     \<lparr>registry_path = ''root'',
      standards = [(KStr ''x'', ex_std ''x'' ''X'' ''data/x.yaml.yaml'')],
      data_cache = Map.empty\<rparr>"




section \<open>Properties\<close>

subsection \<open>Auxiliary facts\<close>

lemma ebind_Inr [simp]: "ebind (Inr x) f = f x"
  by (simp add: ebind_def)

lemma ebind_Inl [simp]: "ebind (Inl e) f = Inl e"
  by (simp add: ebind_def)

lemma key_eq_KStr [simp]: "key_eq k (KStr s) = (k = KStr s)"
  by (cases k) (simp_all add: key_eq_def)

lemma key_eq_refl [simp]: "key_eq k k"
  by (simp add: key_eq_def)

lemma dict_get_KStr_None: "dict_get kvs (KStr s) = None \<longleftrightarrow> KStr s \<notin> fst ` set kvs"
  by (induction kvs) (auto simp: image_iff split: if_splits)

subsection \<open>The example files, evaluated\<close>

lemma ex_env_sel:
  "path_join (ex_env disk) p s = p @ ''/'' @ s"
  "path_exists (ex_env disk) p = (map_of disk p \<noteq> None)"
  "path_suffix (ex_env disk) p = drop (length p - 5) p"
  "open_yaml (ex_env disk) p = (case map_of disk p of None \<Rightarrow> Inl OSError | Some d \<Rightarrow> Inr d)"
  "open_json (ex_env disk) p = (case map_of disk p of None \<Rightarrow> Inl OSError | Some d \<Rightarrow> Inr d)"
  by (simp_all add: ex_env_def)

lemma ex_paths:
  "possible_paths (ex_env disk) ''root'' ''data/codes.yaml'' =
     [''root/data/codes.yaml'', ''root/data/20251030_codes.yaml'', ''root/data/codes.json'']"
  by (simp add: possible_paths_def ex_env_sel replace_def)


lemma ex_flat_records: "get_data_records ex_flat = Inr (VList ex_records)"
  by (simp add: get_data_records_def ex_flat_def is_nested_def)

lemma ex_flat_truthy: "truthy ex_flat"
  by (simp add: ex_flat_def)

lemma ex_reg_sel:
  "registry_path ex_reg = ''root''"
  "data_cache ex_reg = Map.empty"
  "get_standard ex_reg ''codes'' = Some (ex_std ''codes'' ''Codes'' ''data/codes.yaml'')"
  "get_standard ex_reg ''school_boards'' =
     Some (ex_std ''school_boards'' ''Boards'' ''data/school_boards.yaml'')"
  "get_standard (ex_reg\<lparr>data_cache := c\<rparr>) = get_standard ex_reg"
  "path (ex_std i t p) = VStr p"
  by (simp_all add: ex_reg_def get_standard_def ex_std_def fun_eq_iff)

lemma ex_init: "init (ex_env ex_disk) ''root'' = Inr ex_reg"
  by (simp add: init_def load_registry_def ex_env_sel ex_disk_def ex_manifest_def ex_item_def
      standard_of_item_def ex_reg_def ex_std_def)

lemma ex_load_codes:
  "load_standard_data (ex_env ex_disk) ex_reg ''codes'' =
     (Inr (Some ex_flat), ex_reg\<lparr>data_cache := [''codes'' \<mapsto> ex_flat]\<rparr>)"
  by (simp add: load_standard_data_def ex_reg_sel resolve_def ex_paths store_def load_found_def
      ex_env_sel ex_disk_def ex_flat_records ex_flat_truthy ex_records_def)


subsection \<open>The cache\<close>




lemma load_miss:
  "data_cache reg sid = None \<Longrightarrow> get_standard reg sid = Some st \<Longrightarrow> path st = VStr p \<Longrightarrow>
     load_standard_data env reg sid = store reg sid (resolve env (registry_path reg) sid p)"
  by (simp add: load_standard_data_def)

lemma load_unknown:
  "data_cache reg sid = None \<Longrightarrow> get_standard reg sid = None \<Longrightarrow>
     load_standard_data env reg sid = (Inr None, reg)"
  by (simp add: load_standard_data_def)

lemma load_cache_known:
  assumes "load_standard_data env reg sid = (r, reg')"
    and "\<forall>s d. data_cache reg s = Some d \<longrightarrow> get_standard reg s \<noteq> None"
  shows "\<forall>s d. data_cache reg' s = Some d \<longrightarrow> get_standard reg' s \<noteq> None"
  using assms
  by (auto simp: load_standard_data_def store_def get_standard_def
      split: option.splits pyval.splits sum.splits if_splits)

lemma reachable_cache_known:
  "reachable reg \<Longrightarrow> data_cache reg s = Some d \<Longrightarrow> get_standard reg s \<noteq> None"
proof (induction arbitrary: s d rule: reachable.induct)
  case (reach_init env root reg)
  then show ?case by (auto simp: init_def ebind_def split: sum.splits)
next
  case (reach_load reg env standard_id r reg')
  then show ?case using load_cache_known[of env reg standard_id r reg'] by blast
qed







text \<open>
  C9. In a registry that a program can hold, an id that is not a key of the mapping of
  standards gets absence from every query, and no exception: \<open>get_standard\<close> and
  \<open>load_standard_data\<close> return \<open>None\<close>, \<open>search_records\<close> the empty list, \<open>get_statistics\<close>
  the empty dict; the registry is unchanged.
\<close>

theorem unknown_id_absent:
  assumes "reachable reg" and "KStr standard_id \<notin> fst ` set (standards reg)"
  shows "get_standard reg standard_id = None \<and>
         load_standard_data env reg standard_id = (Inr None, reg) \<and>
         search_records env reg standard_id query = (Inr [], reg) \<and>
         get_statistics env reg standard_id = (Inr [], reg)"
proof -
  have g: "get_standard reg standard_id = None"
    using assms(2) by (simp add: get_standard_def dict_get_KStr_None)
  have c: "data_cache reg standard_id = None"
    using reachable_cache_known[OF assms(1), of standard_id] g by (cases "data_cache reg standard_id") auto
  have l: "load_standard_data env reg standard_id = (Inr None, reg)"
    using c g by (rule load_unknown)
  show ?thesis using g l by (simp add: search_records_def get_statistics_def)
qed

theorem unknown_id_absent_witness:
  "reachable ex_reg \<and> KStr ''nope'' \<notin> fst ` set (standards ex_reg) \<and>
   get_standard ex_reg ''nope'' = None \<and>
   load_standard_data (ex_env ex_disk) ex_reg ''nope'' = (Inr None, ex_reg) \<and>
   search_records (ex_env ex_disk) ex_reg ''nope'' ''abc'' = (Inr [], ex_reg) \<and>
   get_statistics (ex_env ex_disk) ex_reg ''nope'' = (Inr [], ex_reg)"
proof -
  have r: "reachable ex_reg" using ex_init by (rule reach_init)
  have k: "KStr ''nope'' \<notin> fst ` set (standards ex_reg)" by (simp add: ex_reg_def)
  show ?thesis
    using r k unknown_id_absent[OF r k, of "ex_env ex_disk" "''abc''"] by simp
qed

subsection \<open>The normalizer\<close>

lemma dict_set_fresh: "KStr s \<notin> fst ` set d \<Longrightarrow> dict_set d (KStr s) v = d @ [(KStr s, v)]"
  by (induction d) (auto simp: image_iff)

lemma dict_update_strs:
  "dict_update d (zip (map VStr names) vs) =
     Inr (foldl (\<lambda>d nv. dict_set d (KStr (fst nv)) (snd nv)) d (zip names vs))"
proof (induction names arbitrary: d vs)
  case Nil
  then show ?case by simp
next
  case (Cons n names)
  then show ?case by (cases vs) simp_all
qed

lemma foldl_dict_set_distinct:
  "distinct names \<Longrightarrow> KStr ` set names \<inter> fst ` set d = {} \<Longrightarrow>
     foldl (\<lambda>d nv. dict_set d (KStr (fst nv)) (snd nv)) d (zip names vs) = d @ zip (map KStr names) vs"
proof (induction names arbitrary: d vs)
  case Nil
  then show ?case by simp
next
  case (Cons n names)
  show ?case
  proof (cases vs)
    case Nil
    then show ?thesis by simp
  next
    case (Cons v vs')
    from Cons.prems have fresh: "KStr n \<notin> fst ` set d" by auto
    from Cons.prems have d: "distinct names" by simp
    from Cons.prems have "KStr ` set names \<inter> fst ` set (d @ [(KStr n, v)]) = {}" by auto
    from Cons.IH[OF d this] fresh show ?thesis using Cons by (simp add: dict_set_fresh)
  qed
qed

lemma zip_record_strs:
  "zip_record (map VStr names) (VList vs) =
     Inr (VDict (foldl (\<lambda>d nv. dict_set d (KStr (fst nv)) (snd nv)) [] (zip names vs)))"
  by (simp add: zip_record_def py_dict_def dict_update_strs)

lemma emap_zip_record:
  "emap (zip_record (map VStr names)) (map VList rows) =
     Inr (map (\<lambda>vs. VDict (foldl (\<lambda>d nv. dict_set d (KStr (fst nv)) (snd nv)) [] (zip names vs))) rows)"
  by (induction rows) (simp_all add: zip_record_strs)

lemma emap_field_ids:
  "map (\<lambda>fd. dict_get fd (KStr ''id'')) fds = map (\<lambda>n. Some (VStr n)) names \<Longrightarrow>
     emap (\<lambda>f. py_getitem f ''id'') (map VDict fds) = Inr (map VStr names)"
proof (induction fds arbitrary: names)
  case Nil
  then show ?case by simp
next
  case (Cons fd fds)
  then show ?case by (cases names) auto
qed

lemma gdr_falsy: "\<not> truthy data \<Longrightarrow> get_data_records data = Inr (VList [])"
  by (simp add: get_data_records_def)

lemma gdr_nested:
  "dict_get kvs (KStr ''standard'') = Some (VDict skvs) \<Longrightarrow> dict_get skvs (KStr ''data'') = Some v \<Longrightarrow>
     get_data_records (VDict kvs) = Inr v"
  by (cases kvs) (auto simp: get_data_records_def is_nested_def)

lemma is_nested_False:
  "dict_get kvs (KStr ''standard'') = None \<or>
     (\<exists>skvs. dict_get kvs (KStr ''standard'') = Some (VDict skvs) \<and> dict_get skvs (KStr ''data'') = None) \<Longrightarrow>
   is_nested (VDict kvs) = Inr False"
  by (auto simp: is_nested_def)

lemma gdr_not_nested:
  assumes "is_nested (VDict kvs) = Inr False"
  shows "get_data_records (VDict kvs) =
     (case dict_get kvs (KStr ''data'') of
        Some v \<Rightarrow> Inr v
      | None \<Rightarrow> (case dict_get kvs (KStr ''records'') of
                   Some recs \<Rightarrow> columnar (VDict kvs)
                 | None \<Rightarrow> Inr (VList [])))"
  using assms by (cases kvs) (auto simp: get_data_records_def split: option.splits)

lemma columnar_no_fields:
  "dict_get kvs (KStr ''fields'') = None \<or> dict_get kvs (KStr ''fields'') = Some (VList []) \<Longrightarrow>
     columnar (VDict kvs) = Inr (VList [])"
  by (auto simp: columnar_def)

lemma columnar_zip:
  assumes "dict_get kvs (KStr ''records'') = Some (VList (map VList rows))"
    and "dict_get kvs (KStr ''fields'') = Some (VList (map VDict fds))"
    and "map (\<lambda>fd. dict_get fd (KStr ''id'')) fds = map (\<lambda>n. Some (VStr n)) names"
  shows "columnar (VDict kvs) =
     Inr (VList (if names = [] then []
                 else map (\<lambda>vs. VDict (foldl (\<lambda>d nv. dict_set d (KStr (fst nv)) (snd nv)) [] (zip names vs))) rows))"
  using assms emap_field_ids[OF assms(3)] by (simp add: columnar_def emap_zip_record)

text \<open>
  C4 as stated fails on a document whose \<^verbatim>\<open>"standard"\<close> entry is
  not a mapping: the membership test on that entry raises.
\<close>

theorem get_data_records_null_standard: "get_data_records ex_null_standard = Inl TypeError"
  by (simp add: get_data_records_def ex_null_standard_def is_nested_def)

lemma is_nested_other:
  "dict_get kvs (KStr ''standard'') = None \<or>
     (\<exists>skvs. dict_get kvs (KStr ''standard'') = Some (VDict skvs) \<and> dict_get skvs (KStr ''data'') = None) \<or>
     (\<exists>xs. dict_get kvs (KStr ''standard'') = Some (VList xs) \<and> VStr ''data'' \<notin> set xs) \<or>
     (\<exists>s. dict_get kvs (KStr ''standard'') = Some (VStr s) \<and> \<not> str_contains ''data'' s) \<Longrightarrow>
   is_nested (VDict kvs) = Inr False"
  by (auto simp: is_nested_def)

lemma gdr_list_or_str:
  "(\<exists>xs. data = VList xs \<and> VStr ''standard'' \<notin> set xs \<and> VStr ''data'' \<notin> set xs \<and>
        VStr ''records'' \<notin> set xs) \<or>
   (\<exists>s. data = VStr s \<and> \<not> str_contains ''standard'' s \<and> \<not> str_contains ''data'' s \<and>
        \<not> str_contains ''records'' s) \<Longrightarrow>
   get_data_records data = Inr (VList [])"
  by (auto simp: get_data_records_def is_nested_def)

text \<open>
  C4. A document that is empty or null gives the empty list; so does a list or a string
  that is not empty and does not contain \<^verbatim>\<open>"standard"\<close>, \<^verbatim>\<open>"data"\<close> or \<^verbatim>\<open>"records"\<close>. For a
  mapping the three shapes are tried in order. Nested: when the \<^verbatim>\<open>"standard"\<close> entry is a
  mapping with a \<^verbatim>\<open>"data"\<close> entry, the result is the value of that entry. Otherwise, when
  the \<^verbatim>\<open>"standard"\<close> entry is absent, or is a mapping, a list or a string that does not
  contain \<^verbatim>\<open>"data"\<close>: flat, the value under \<^verbatim>\<open>"data"\<close> when there is one; else columnar, when
  there is a \<^verbatim>\<open>"records"\<close> entry; else the empty list. In the columnar form, with no
  \<^verbatim>\<open>"fields"\<close> entry or an empty list there, the result is the empty list whatever the
  records are; and when \<^verbatim>\<open>"fields"\<close> is a non-empty list of mappings that each have a
  string under \<^verbatim>\<open>"id"\<close>, and \<^verbatim>\<open>"records"\<close> is a list of lists, every record is zipped
  against the ids in their order, up to the shorter of the two, a later id overwriting
  an equal earlier one; for distinct ids the mapping is the list of the pairs.
\<close>

theorem get_data_records_shapes:
  "(\<not> truthy data \<longrightarrow> get_data_records data = Inr (VList [])) \<and>
   ((\<exists>xs. data = VList xs \<and> VStr ''standard'' \<notin> set xs \<and> VStr ''data'' \<notin> set xs \<and>
        VStr ''records'' \<notin> set xs) \<or>
    (\<exists>s. data = VStr s \<and> \<not> str_contains ''standard'' s \<and> \<not> str_contains ''data'' s \<and>
        \<not> str_contains ''records'' s) \<longrightarrow>
      get_data_records data = Inr (VList [])) \<and>
   (dict_get kvs (KStr ''standard'') = Some (VDict skvs) \<and> dict_get skvs (KStr ''data'') = Some v \<longrightarrow>
      get_data_records (VDict kvs) = Inr v) \<and>
   ((dict_get kvs (KStr ''standard'') = None \<or>
      (\<exists>skvs. dict_get kvs (KStr ''standard'') = Some (VDict skvs) \<and>
         dict_get skvs (KStr ''data'') = None) \<or>
      (\<exists>xs. dict_get kvs (KStr ''standard'') = Some (VList xs) \<and> VStr ''data'' \<notin> set xs) \<or>
      (\<exists>s. dict_get kvs (KStr ''standard'') = Some (VStr s) \<and> \<not> str_contains ''data'' s)) \<longrightarrow>
      (dict_get kvs (KStr ''data'') = Some v \<longrightarrow> get_data_records (VDict kvs) = Inr v) \<and>
      (dict_get kvs (KStr ''data'') = None \<and>
       dict_get kvs (KStr ''records'') = Some (VList (map VList rows)) \<and>
       dict_get kvs (KStr ''fields'') = Some (VList (map VDict fds)) \<and>
       map (\<lambda>fd. dict_get fd (KStr ''id'')) fds = map (\<lambda>n. Some (VStr n)) names \<and>
       names \<noteq> [] \<longrightarrow>
         get_data_records (VDict kvs) =
           Inr (VList (map (\<lambda>vs. VDict (foldl (\<lambda>d nv. dict_set d (KStr (fst nv)) (snd nv)) []
                                          (zip names vs))) rows)) \<and>
         (distinct names \<longrightarrow>
            get_data_records (VDict kvs) =
              Inr (VList (map (\<lambda>vs. VDict (zip (map KStr names) vs)) rows)))) \<and>
      (dict_get kvs (KStr ''data'') = None \<and> dict_get kvs (KStr ''records'') = Some recs \<and>
       (dict_get kvs (KStr ''fields'') = None \<or> dict_get kvs (KStr ''fields'') = Some (VList [])) \<longrightarrow>
         get_data_records (VDict kvs) = Inr (VList [])) \<and>
      (dict_get kvs (KStr ''data'') = None \<and> dict_get kvs (KStr ''records'') = None \<longrightarrow>
         get_data_records (VDict kvs) = Inr (VList [])))"
proof (intro conjI impI)
  show "get_data_records data = Inr (VList [])" if "\<not> truthy data"
    using that by (rule gdr_falsy)
  show "get_data_records data = Inr (VList [])"
    if "(\<exists>xs. data = VList xs \<and> VStr ''standard'' \<notin> set xs \<and> VStr ''data'' \<notin> set xs \<and>
        VStr ''records'' \<notin> set xs) \<or>
      (\<exists>s. data = VStr s \<and> \<not> str_contains ''standard'' s \<and> \<not> str_contains ''data'' s \<and>
        \<not> str_contains ''records'' s)"
    using that by (rule gdr_list_or_str)
  show "get_data_records (VDict kvs) = Inr v"
    if "dict_get kvs (KStr ''standard'') = Some (VDict skvs) \<and> dict_get skvs (KStr ''data'') = Some v"
    using that gdr_nested by blast
next
  assume "dict_get kvs (KStr ''standard'') = None \<or>
      (\<exists>skvs. dict_get kvs (KStr ''standard'') = Some (VDict skvs) \<and>
         dict_get skvs (KStr ''data'') = None) \<or>
      (\<exists>xs. dict_get kvs (KStr ''standard'') = Some (VList xs) \<and> VStr ''data'' \<notin> set xs) \<or>
      (\<exists>s. dict_get kvs (KStr ''standard'') = Some (VStr s) \<and> \<not> str_contains ''data'' s)"
  then have nn: "is_nested (VDict kvs) = Inr False" by (rule is_nested_other)
  note g = gdr_not_nested[OF nn]
  show "get_data_records (VDict kvs) = Inr v" if "dict_get kvs (KStr ''data'') = Some v"
    using that g by simp
  show "get_data_records (VDict kvs) = Inr (VList [])"
    if "dict_get kvs (KStr ''data'') = None \<and> dict_get kvs (KStr ''records'') = None"
    using that g by simp
  show "get_data_records (VDict kvs) = Inr (VList [])"
    if "dict_get kvs (KStr ''data'') = None \<and> dict_get kvs (KStr ''records'') = Some recs \<and>
       (dict_get kvs (KStr ''fields'') = None \<or> dict_get kvs (KStr ''fields'') = Some (VList []))"
    using that g columnar_no_fields[of kvs] by simp
  assume c: "dict_get kvs (KStr ''data'') = None \<and>
       dict_get kvs (KStr ''records'') = Some (VList (map VList rows)) \<and>
       dict_get kvs (KStr ''fields'') = Some (VList (map VDict fds)) \<and>
       map (\<lambda>fd. dict_get fd (KStr ''id'')) fds = map (\<lambda>n. Some (VStr n)) names \<and>
       names \<noteq> []"
  then have "columnar (VDict kvs) =
      Inr (VList (map (\<lambda>vs. VDict (foldl (\<lambda>d nv. dict_set d (KStr (fst nv)) (snd nv)) []
                                      (zip names vs))) rows))"
    using columnar_zip[of kvs rows fds names] by simp
  with c g show z: "get_data_records (VDict kvs) =
      Inr (VList (map (\<lambda>vs. VDict (foldl (\<lambda>d nv. dict_set d (KStr (fst nv)) (snd nv)) []
                                      (zip names vs))) rows))"
    by simp
  show "get_data_records (VDict kvs) = Inr (VList (map (\<lambda>vs. VDict (zip (map KStr names) vs)) rows))"
    if "distinct names"
  proof -
    have "foldl (\<lambda>d nv. dict_set d (KStr (fst nv)) (snd nv)) [] (zip names vs) =
            zip (map KStr names) vs" for vs :: "pyval list"
      using foldl_dict_set_distinct[OF that, of "[]" vs] by simp
    with z show ?thesis by simp
  qed
qed

theorem get_data_records_shapes_witness:
  "get_data_records VNone = Inr (VList []) \<and>
   get_data_records (VDict []) = Inr (VList []) \<and>
   get_data_records (VList [VInt 1, VStr ''x'']) = Inr (VList []) \<and>
   get_data_records (VStr ''notes'') = Inr (VList []) \<and>
   get_data_records ex_nested = Inr (VList ex_records) \<and>
   get_data_records ex_flat = Inr (VList ex_records) \<and>
   get_data_records (VDict [(KStr ''standard'', VStr ''v1''), (KStr ''data'', VList ex_records)]) =
     Inr (VList ex_records) \<and>
   get_data_records (VDict [(KStr ''standard'', VList [VStr ''a'']), (KStr ''data'', VList ex_records)]) =
     Inr (VList ex_records) \<and>
   get_data_records ex_columnar =
     Inr (VList [VDict [(KStr ''a'', VInt 1), (KStr ''b'', VStr ''x'')],
                 VDict [(KStr ''a'', VInt 2), (KStr ''b'', VStr ''y'')]]) \<and>
   get_data_records (VDict [(KStr ''fields'', VList []), (KStr ''records'', VList [VList [VInt 1]])]) =
     Inr (VList []) \<and>
   get_data_records (VDict [(KStr ''records'', VNone)]) = Inr (VList []) \<and>
   get_data_records (VDict [(KStr ''title'', VStr ''x'')]) = Inr (VList [])"
proof -
  have 1: "get_data_records VNone = Inr (VList [])"
    using get_data_records_shapes[where data = VNone] by simp
  have 2: "get_data_records (VDict []) = Inr (VList [])"
    using get_data_records_shapes[where data = "VDict []"] by simp
  have 3: "get_data_records (VList [VInt 1, VStr ''x'']) = Inr (VList [])"
    using get_data_records_shapes[where data = "VList [VInt 1, VStr ''x'']"] by simp
  have 4: "get_data_records (VStr ''notes'') = Inr (VList [])"
    using get_data_records_shapes[where data = "VStr ''notes''"] by simp
  have 5: "get_data_records ex_nested = Inr (VList ex_records)"
    using get_data_records_shapes[where kvs = "[(KStr ''standard'', VDict [(KStr ''data'', VList ex_records)])]"
        and skvs = "[(KStr ''data'', VList ex_records)]" and v = "VList ex_records"]
    by (simp add: ex_nested_def)
  have 6: "get_data_records ex_flat = Inr (VList ex_records)"
    using get_data_records_shapes[where kvs = "[(KStr ''data'', VList ex_records)]" and v = "VList ex_records"]
    by (simp add: ex_flat_def)
  have 7: "get_data_records (VDict [(KStr ''standard'', VStr ''v1''), (KStr ''data'', VList ex_records)]) =
     Inr (VList ex_records)"
    using get_data_records_shapes[where kvs = "[(KStr ''standard'', VStr ''v1''), (KStr ''data'', VList ex_records)]"
        and v = "VList ex_records"]
    by simp
  have 8: "get_data_records (VDict [(KStr ''standard'', VList [VStr ''a'']), (KStr ''data'', VList ex_records)]) =
     Inr (VList ex_records)"
    using get_data_records_shapes[where kvs = "[(KStr ''standard'', VList [VStr ''a'']), (KStr ''data'', VList ex_records)]"
        and v = "VList ex_records"]
    by simp
  have 9: "get_data_records ex_columnar =
     Inr (VList [VDict [(KStr ''a'', VInt 1), (KStr ''b'', VStr ''x'')],
                 VDict [(KStr ''a'', VInt 2), (KStr ''b'', VStr ''y'')]])"
    using get_data_records_shapes[where
        kvs = "[(KStr ''fields'', VList [VDict [(KStr ''id'', VStr ''a'')], VDict [(KStr ''id'', VStr ''b'')]]),
                (KStr ''records'', VList [VList [VInt 1, VStr ''x''], VList [VInt 2, VStr ''y'']])]"
        and rows = "[[VInt 1, VStr ''x''], [VInt 2, VStr ''y'']]"
        and fds = "[[(KStr ''id'', VStr ''a'')], [(KStr ''id'', VStr ''b'')]]"
        and names = "[''a'', ''b'']"]
    by (simp add: ex_columnar_def)
  have 10: "get_data_records (VDict [(KStr ''fields'', VList []), (KStr ''records'', VList [VList [VInt 1]])]) =
     Inr (VList [])"
    using get_data_records_shapes[where
        kvs = "[(KStr ''fields'', VList []), (KStr ''records'', VList [VList [VInt 1]])]"
        and recs = "VList [VList [VInt 1]]"]
    by simp
  have 11: "get_data_records (VDict [(KStr ''records'', VNone)]) = Inr (VList [])"
    using get_data_records_shapes[where kvs = "[(KStr ''records'', VNone)]" and recs = VNone] by simp
  have 12: "get_data_records (VDict [(KStr ''title'', VStr ''x'')]) = Inr (VList [])"
    using get_data_records_shapes[where kvs = "[(KStr ''title'', VStr ''x'')]"] by simp
  from 1 2 3 4 5 6 7 8 9 10 11 12 show ?thesis by simp
qed

subsection \<open>Paths and file names\<close>

lemma split_not_Nil [simp]: "split sep s \<noteq> []"
  by (induction s) (auto split: list.splits)

lemma split_no_sep: "sep \<notin> set f \<Longrightarrow> split sep f = [f]"
  by (induction f) auto

lemma split_append_sep:
  "sep \<notin> set f \<Longrightarrow> split sep (d @ sep # f) = split sep d @ [f]"
proof (induction d)
  case Nil
  then show ?case by (simp add: split_no_sep)
next
  case (Cons c d)
  then show ?case by (cases "split sep d") auto
qed

lemma join_Cons: "ps \<noteq> [] \<Longrightarrow> join sep (x # ps) = x @ sep @ join sep ps"
  by (cases ps) simp_all

lemma join_split: "join [sep] (split sep s) = s"
proof (induction s)
  case Nil
  then show ?case by simp
next
  case (Cons c s)
  show ?case
  proof (cases "c = sep")
    case True
    with Cons show ?thesis by (simp add: join_Cons)
  next
    case False
    obtain q qs where q: "split sep s = q # qs" by (cases "split sep s") auto
    with Cons False show ?thesis by (cases qs) auto
  qed
qed

lemma path_parts_dir:
  assumes "CHR ''/'' \<notin> set f"
  shows "last (split CHR ''/'' (d @ ''/'' @ f)) = f"
    and "join ''/'' (butlast (split CHR ''/'' (d @ ''/'' @ f))) = d"
  using assms by (simp_all add: split_append_sep join_split)

lemma path_parts_plain:
  assumes "CHR ''/'' \<notin> set p"
  shows "last (split CHR ''/'' p) = p" and "join ''/'' (butlast (split CHR ''/'' p)) = []"
  using assms by (simp_all add: split_no_sep)

lemma starts_with_iff: "starts_with a s \<longleftrightarrow> (\<exists>t. s = a @ t)"
  by (induction a s rule: starts_with.induct) auto

lemma replace_scan_skip: "length s \<le> length skip \<Longrightarrow> replace_scan skip old new s = []"
  by (induction skip old new s rule: replace_scan.induct) auto

lemma replace_scan_suffix:
  assumes "old \<noteq> []" and "\<forall>pre post. stem @ old = pre @ old @ post \<longrightarrow> post = []"
  shows "replace_scan [] old new (stem @ old) = stem @ new"
  using assms(2)
proof (induction stem)
  case Nil
  obtain c cs where o: "old = c # cs" using assms(1) by (cases old) auto
  have "starts_with old (c # cs)" by (simp add: starts_with_iff o)
  then show ?case by (simp add: o replace_scan_skip)
next
  case (Cons c stem)
  have "\<not> starts_with old (c # stem @ old)"
  proof
    assume "starts_with old (c # stem @ old)"
    then obtain t where t: "c # stem @ old = old @ t" by (auto simp: starts_with_iff)
    then have "(c # stem) @ old = [] @ old @ t" by simp
    with Cons.prems have "t = []" by blast
    with t have "length (c # stem @ old) = length old" by simp
    then show False by simp
  qed
  moreover have "\<forall>pre post. stem @ old = pre @ old @ post \<longrightarrow> post = []"
  proof (intro allI impI)
    fix pre post
    assume "stem @ old = pre @ old @ post"
    then have "(c # stem) @ old = (c # pre) @ old @ post" by simp
    with Cons.prems show "post = []" by blast
  qed
  ultimately show ?case using Cons.IH by simp
qed

lemma replace_yaml_extension:
  assumes "\<forall>pre post. stem @ ''.yaml'' = pre @ ''.yaml'' @ post \<longrightarrow> post = []"
  shows "replace ''.yaml'' ''.json'' (stem @ ''.yaml'') = stem @ ''.json''"
  using replace_scan_suffix[of "''.yaml''" stem "''.json''"] assms by (simp add: replace_def)

subsection \<open>The resolver\<close>

lemma find_three:
  "find P [a, b, c] =
     (if P a then Some a else if P b then Some b else if P c then Some c else None)"
  by simp

lemma resolve_other:
  "standard_id \<noteq> ''school_boards'' \<Longrightarrow>
     resolve env root standard_id p =
       (case find (path_exists env) (possible_paths env root p) of
          None \<Rightarrow> Inr None
        | Some found_path \<Rightarrow> load_found env found_path)"
  by (simp add: resolve_def)

lemma resolve_school_boards:
  "resolve env root ''school_boards'' p = try_json_paths env (json_paths env root)"
  by (simp add: resolve_def)

lemma store_None [simp]: "store reg sid (Inr None) = (Inr None, reg)"
  by (simp add: store_def)

lemma store_Some [simp]:
  "store reg sid (Inr (Some d)) = (Inr (Some d), reg\<lparr>data_cache := (data_cache reg)(sid \<mapsto> d)\<rparr>)"
  by (simp add: store_def)

lemma store_Inl [simp]: "store reg sid (Inl e) = (Inl e, reg)"
  by (simp add: store_def)

lemma load_found_empty:
  assumes "(if path_suffix env fp = ''.yaml'' then open_yaml env fp else open_json env fp) = Inr data"
    and "\<not> truthy data \<or> (\<exists>recs. get_data_records data = Inr recs \<and> \<not> truthy recs)"
  shows "load_found env fp = Inr None"
  using assms by (auto simp: load_found_def)

lemma try_json_paths_two:
  "try_json_paths env [p1, p2] =
     (if path_exists env p1 then
        ebind (open_json env p1) (\<lambda>d1.
        ebind (get_data_records d1) (\<lambda>r1.
          if truthy r1 then Inr (Some d1) else try_json_paths env [p2]))
      else try_json_paths env [p2])"
  by (simp add: ebind_def split: sum.splits)

lemma try_json_paths_one:
  "try_json_paths env [p2] =
     (if path_exists env p2 then
        ebind (open_json env p2) (\<lambda>d2.
        ebind (get_data_records d2) (\<lambda>r2. if truthy r2 then Inr (Some d2) else Inr None))
      else Inr None)"
  by (simp add: ebind_def split: sum.splits)

lemma ex_reg_x_sel:
  "registry_path ex_reg_x = ''root''"
  "data_cache ex_reg_x = Map.empty"
  "get_standard ex_reg_x ''x'' = Some (ex_std ''x'' ''X'' ''data/x.yaml.yaml'')"
  by (simp_all add: ex_reg_x_def get_standard_def)

text \<open>
  C2 as stated fails on a file name that has \<^verbatim>\<open>.yaml\<close> before its extension: for
  \<^verbatim>\<open>x.yaml.yaml\<close> the third candidate of the source is \<^verbatim>\<open>x.json.json\<close>, not \<^verbatim>\<open>x.yaml.json\<close>,
  the name with the extension changed. A file of the second name is not found, a file
  of the first name is loaded.
\<close>

theorem load_standard_data_every_yaml:
  "init (ex_env [(''root/registry.yaml'',
                  VDict [(KStr ''registry'', VList [ex_item ''x'' ''X'' ''data/x.yaml.yaml''])])])
     ''root'' = Inr ex_reg_x \<and>
   possible_paths (ex_env []) ''root'' ''data/x.yaml.yaml'' =
     [''root/data/x.yaml.yaml'', ''root/data/20251030_x.yaml.yaml'', ''root/data/x.json.json''] \<and>
   spec_json_name ''x.yaml.yaml'' = ''x.yaml.json'' \<and>
   load_standard_data (ex_env [(''root/data/x.yaml.json'', ex_flat)]) ex_reg_x ''x'' =
     (Inr None, ex_reg_x) \<and>
   load_standard_data (ex_env [(''root/data/x.json.json'', ex_flat)]) ex_reg_x ''x'' =
     (Inr (Some ex_flat), ex_reg_x\<lparr>data_cache := [''x'' \<mapsto> ex_flat]\<rparr>)"
proof -
  have p: "possible_paths (ex_env disk) ''root'' ''data/x.yaml.yaml'' =
     [''root/data/x.yaml.yaml'', ''root/data/20251030_x.yaml.yaml'', ''root/data/x.json.json'']"
    for disk
    by (simp add: possible_paths_def ex_env_sel replace_def)
  have s: "spec_json_name ''x.yaml.yaml'' = ''x.yaml.json''"
    by (simp add: spec_json_name_def)
  have a: "load_standard_data (ex_env [(''root/data/x.yaml.json'', ex_flat)]) ex_reg_x ''x'' =
     (Inr None, ex_reg_x)"
    by (simp add: load_standard_data_def ex_reg_x_sel ex_reg_sel resolve_def p ex_env_sel)
  have b: "load_standard_data (ex_env [(''root/data/x.json.json'', ex_flat)]) ex_reg_x ''x'' =
     (Inr (Some ex_flat), ex_reg_x\<lparr>data_cache := [''x'' \<mapsto> ex_flat]\<rparr>)"
    by (simp add: load_standard_data_def ex_reg_x_sel ex_reg_sel resolve_def p ex_env_sel load_found_def
        ex_flat_records ex_flat_truthy ex_records_def)
  have i: "init (ex_env [(''root/registry.yaml'',
                  VDict [(KStr ''registry'', VList [ex_item ''x'' ''X'' ''data/x.yaml.yaml''])])])
     ''root'' = Inr ex_reg_x"
    by (simp add: init_def load_registry_def ex_env_sel ex_item_def standard_of_item_def
        ex_reg_x_def ex_std_def)
  from i p[of "[]"] s a b show ?thesis by simp
qed

text \<open>
  C2. For an id other than \<^verbatim>\<open>school_boards\<close> that is known, has a string path and is not
  cached, the candidates are, in order: the manifest path under the root; the
  directory of that path with the file name prefixed by \<^verbatim>\<open>20251030_\<close>; the same directory
  with every \<^verbatim>\<open>.yaml\<close> of the file name replaced by \<^verbatim>\<open>.json\<close>. The load is the parse and
  check
  of the first candidate that exists, whatever its records and whatever the later
  candidates hold; with no candidate on disk it is absence. The directory and the
  file name are the parts of the path around its last slash, and for a file name whose
  only \<^verbatim>\<open>.yaml\<close> is its extension the replacement changes the extension alone.
\<close>

theorem load_standard_data_candidates:
  assumes "standard_id \<noteq> ''school_boards''"
    and "data_cache reg standard_id = None"
    and "get_standard reg standard_id = Some st"
    and "path st = VStr p"
    and "filename = last (split CHR ''/'' p)"
    and "dir_path = join ''/'' (butlast (split CHR ''/'' p))"
    and "c1 = path_join env (registry_path reg) p"
    and "c2 = path_join env (path_join env (registry_path reg) dir_path) (''20251030_'' @ filename)"
    and "c3 = path_join env (path_join env (registry_path reg) dir_path)
                (replace ''.yaml'' ''.json'' filename)"
  shows "possible_paths env (registry_path reg) p = [c1, c2, c3] \<and>
    (path_exists env c1 \<longrightarrow>
       load_standard_data env reg standard_id = store reg standard_id (load_found env c1)) \<and>
    (\<not> path_exists env c1 \<and> path_exists env c2 \<longrightarrow>
       load_standard_data env reg standard_id = store reg standard_id (load_found env c2)) \<and>
    (\<not> path_exists env c1 \<and> \<not> path_exists env c2 \<and> path_exists env c3 \<longrightarrow>
       load_standard_data env reg standard_id = store reg standard_id (load_found env c3)) \<and>
    (\<not> path_exists env c1 \<and> \<not> path_exists env c2 \<and> \<not> path_exists env c3 \<longrightarrow>
       load_standard_data env reg standard_id = (Inr None, reg)) \<and>
    (\<forall>d f. p = d @ ''/'' @ f \<and> CHR ''/'' \<notin> set f \<longrightarrow> dir_path = d \<and> filename = f) \<and>
    (CHR ''/'' \<notin> set p \<longrightarrow> dir_path = [] \<and> filename = p) \<and>
    (\<forall>stem. filename = stem @ ''.yaml'' \<and>
        (\<forall>pre post. filename = pre @ ''.yaml'' @ post \<longrightarrow> post = []) \<longrightarrow>
        replace ''.yaml'' ''.json'' filename = stem @ ''.json'')"
proof -
  have pp: "possible_paths env (registry_path reg) p = [c1, c2, c3]"
    using assms(5-9) by (simp add: possible_paths_def Let_def)
  have l: "load_standard_data env reg standard_id =
      store reg standard_id
        (case find (path_exists env) [c1, c2, c3] of
           None \<Rightarrow> Inr None
         | Some found_path \<Rightarrow> load_found env found_path)"
    using load_miss[OF assms(2) assms(3) assms(4), of env] pp
    by (simp add: resolve_other[OF assms(1)])
  have parts: "\<forall>d f. p = d @ ''/'' @ f \<and> CHR ''/'' \<notin> set f \<longrightarrow> dir_path = d \<and> filename = f"
    using path_parts_dir assms(5,6) by blast
  have plain: "CHR ''/'' \<notin> set p \<longrightarrow> dir_path = [] \<and> filename = p"
    using path_parts_plain assms(5,6) by blast
  have ext: "\<forall>stem. filename = stem @ ''.yaml'' \<and>
        (\<forall>pre post. filename = pre @ ''.yaml'' @ post \<longrightarrow> post = []) \<longrightarrow>
        replace ''.yaml'' ''.json'' filename = stem @ ''.json''"
    using replace_yaml_extension by blast
  have 1: "path_exists env c1 \<longrightarrow>
       load_standard_data env reg standard_id = store reg standard_id (load_found env c1)"
    using l by simp
  have 2: "\<not> path_exists env c1 \<and> path_exists env c2 \<longrightarrow>
       load_standard_data env reg standard_id = store reg standard_id (load_found env c2)"
    using l by simp
  have 3: "\<not> path_exists env c1 \<and> \<not> path_exists env c2 \<and> path_exists env c3 \<longrightarrow>
       load_standard_data env reg standard_id = store reg standard_id (load_found env c3)"
    using l by simp
  have 4: "\<not> path_exists env c1 \<and> \<not> path_exists env c2 \<and> \<not> path_exists env c3 \<longrightarrow>
       load_standard_data env reg standard_id = (Inr None, reg)"
    using l by simp
  from pp 1 2 3 4 parts plain ext show ?thesis by blast
qed

theorem load_standard_data_candidates_witness:
  "load_standard_data
     (ex_env [(''root/data/codes.yaml'', ex_empty), (''root/data/20251030_codes.yaml'', ex_flat)])
     ex_reg ''codes'' = (Inr None, ex_reg) \<and>
   load_standard_data
     (ex_env [(''root/data/20251030_codes.yaml'', ex_columnar), (''root/data/codes.json'', ex_flat)])
     ex_reg ''codes'' = (Inr (Some ex_columnar), ex_reg\<lparr>data_cache := [''codes'' \<mapsto> ex_columnar]\<rparr>) \<and>
   load_standard_data (ex_env [(''root/data/codes.json'', ex_flat)]) ex_reg ''codes'' =
     (Inr (Some ex_flat), ex_reg\<lparr>data_cache := [''codes'' \<mapsto> ex_flat]\<rparr>) \<and>
   load_standard_data (ex_env []) ex_reg ''codes'' = (Inr None, ex_reg) \<and>
   replace ''.yaml'' ''.json'' ''codes.yaml'' = ''codes.json''"
proof -
  have only: "\<forall>pre post. ''codes.yaml'' = pre @ ''.yaml'' @ post \<longrightarrow> post = []"
    by (auto simp: Cons_eq_append_conv)
  have col: "get_data_records ex_columnar =
     Inr (VList [VDict [(KStr ''a'', VInt 1), (KStr ''b'', VStr ''x'')],
                 VDict [(KStr ''a'', VInt 2), (KStr ''b'', VStr ''y'')]])"
    by (simp add: get_data_records_def ex_columnar_def is_nested_def columnar_def zip_record_def
        py_dict_def)
  have emp: "get_data_records ex_empty = Inr (VList [])"
    by (simp add: get_data_records_def ex_empty_def is_nested_def)
  have t: "truthy ex_columnar" "truthy ex_empty" by (simp_all add: ex_columnar_def ex_empty_def)
  have i: "''codes'' \<noteq> ''school_boards''"
    "data_cache ex_reg ''codes'' = None"
    "get_standard ex_reg ''codes'' = Some (ex_std ''codes'' ''Codes'' ''data/codes.yaml'')"
    "path (ex_std ''codes'' ''Codes'' ''data/codes.yaml'') = VStr ''data/codes.yaml''"
    "''codes.yaml'' = last (split CHR ''/'' ''data/codes.yaml'')"
    "''data'' = join ''/'' (butlast (split CHR ''/'' ''data/codes.yaml''))"
    by (simp_all add: ex_reg_sel)
  have j: "''root/data/codes.yaml'' = path_join (ex_env disk) (registry_path ex_reg) ''data/codes.yaml''"
    "''root/data/20251030_codes.yaml'' =
       path_join (ex_env disk) (path_join (ex_env disk) (registry_path ex_reg) ''data'')
         (''20251030_'' @ ''codes.yaml'')"
    "''root/data/codes.json'' =
       path_join (ex_env disk) (path_join (ex_env disk) (registry_path ex_reg) ''data'')
         (replace ''.yaml'' ''.json'' ''codes.yaml'')"
    for disk
    by (simp_all add: ex_reg_sel ex_env_sel replace_def)
  note inst = load_standard_data_candidates[OF i j]
  have a: "load_standard_data
     (ex_env [(''root/data/codes.yaml'', ex_empty), (''root/data/20251030_codes.yaml'', ex_flat)])
     ex_reg ''codes'' = (Inr None, ex_reg)"
    using inst[THEN conjunct2, THEN conjunct1,
        of "[(''root/data/codes.yaml'', ex_empty), (''root/data/20251030_codes.yaml'', ex_flat)]"]
    by (simp add: ex_env_sel load_found_def emp t)
  have b: "load_standard_data
     (ex_env [(''root/data/20251030_codes.yaml'', ex_columnar), (''root/data/codes.json'', ex_flat)])
     ex_reg ''codes'' = (Inr (Some ex_columnar), ex_reg\<lparr>data_cache := [''codes'' \<mapsto> ex_columnar]\<rparr>)"
    using inst[THEN conjunct2, THEN conjunct2, THEN conjunct1,
        of "[(''root/data/20251030_codes.yaml'', ex_columnar), (''root/data/codes.json'', ex_flat)]"]
    by (simp add: ex_reg_sel ex_env_sel load_found_def col t)
  have c: "load_standard_data (ex_env [(''root/data/codes.json'', ex_flat)]) ex_reg ''codes'' =
     (Inr (Some ex_flat), ex_reg\<lparr>data_cache := [''codes'' \<mapsto> ex_flat]\<rparr>)"
    using inst[THEN conjunct2, THEN conjunct2, THEN conjunct2, THEN conjunct1,
        of "[(''root/data/codes.json'', ex_flat)]"]
    by (simp add: ex_reg_sel ex_env_sel load_found_def ex_flat_records ex_flat_truthy ex_records_def)
  have d: "load_standard_data (ex_env []) ex_reg ''codes'' = (Inr None, ex_reg)"
    using inst[THEN conjunct2, THEN conjunct2, THEN conjunct2, THEN conjunct2, THEN conjunct1, of "[]"]
    by (simp add: ex_env_sel)
  have e: "replace ''.yaml'' ''.json'' ''codes.yaml'' = ''codes.json''"
    using inst[THEN conjunct2, THEN conjunct2, THEN conjunct2, THEN conjunct2, THEN conjunct2,
        THEN conjunct2, THEN conjunct2, THEN spec, of "''codes''"] only
    by simp
  from a b c d e show ?thesis by simp
qed

text \<open>
  C10. For an id other than \<^verbatim>\<open>school_boards\<close> that is known, has a string path and is not
  cached: when the first candidate that exists parses to an empty document, or to one
  whose records are empty, the load returns absence and leaves the registry as it was.
  Nothing is assumed of the candidates after it: they may exist and hold records.
\<close>

theorem load_standard_data_no_fall_through:
  assumes "standard_id \<noteq> ''school_boards''"
    and "data_cache reg standard_id = None"
    and "get_standard reg standard_id = Some st"
    and "path st = VStr p"
    and "find (path_exists env) (possible_paths env (registry_path reg) p) = Some found_path"
    and "(if path_suffix env found_path = ''.yaml'' then open_yaml env found_path
          else open_json env found_path) = Inr data"
    and "\<not> truthy data \<or> (\<exists>records. get_data_records data = Inr records \<and> \<not> truthy records)"
  shows "load_standard_data env reg standard_id = (Inr None, reg)"
proof -
  have "load_found env found_path = Inr None"
    using assms(6) assms(7) by (rule load_found_empty)
  then show ?thesis
    using load_miss[OF assms(2) assms(3) assms(4), of env] assms(5)
    by (simp add: resolve_other[OF assms(1)])
qed

theorem load_standard_data_no_fall_through_witness:
  "load_standard_data
     (ex_env [(''root/data/codes.yaml'', ex_empty), (''root/data/20251030_codes.yaml'', ex_flat),
              (''root/data/codes.json'', ex_flat)])
     ex_reg ''codes'' = (Inr None, ex_reg) \<and>
   load_standard_data
     (ex_env [(''root/data/20251030_codes.yaml'', VDict []), (''root/data/codes.json'', ex_flat)])
     ex_reg ''codes'' = (Inr None, ex_reg)"
proof -
  have emp: "get_data_records ex_empty = Inr (VList [])"
    by (simp add: get_data_records_def ex_empty_def is_nested_def)
  have t: "truthy ex_empty" by (simp add: ex_empty_def)
  have a: "load_standard_data
     (ex_env [(''root/data/codes.yaml'', ex_empty), (''root/data/20251030_codes.yaml'', ex_flat),
              (''root/data/codes.json'', ex_flat)])
     ex_reg ''codes'' = (Inr None, ex_reg)"
    using load_standard_data_no_fall_through[where standard_id = "''codes''" and reg = ex_reg
        and st = "ex_std ''codes'' ''Codes'' ''data/codes.yaml''" and p = "''data/codes.yaml''"
        and env = "ex_env [(''root/data/codes.yaml'', ex_empty),
              (''root/data/20251030_codes.yaml'', ex_flat), (''root/data/codes.json'', ex_flat)]"
        and found_path = "''root/data/codes.yaml''" and data = ex_empty]
    by (simp add: ex_reg_sel ex_env_sel ex_paths emp t)
  have b: "load_standard_data
     (ex_env [(''root/data/20251030_codes.yaml'', VDict []), (''root/data/codes.json'', ex_flat)])
     ex_reg ''codes'' = (Inr None, ex_reg)"
    using load_standard_data_no_fall_through[where standard_id = "''codes''" and reg = ex_reg
        and st = "ex_std ''codes'' ''Codes'' ''data/codes.yaml''" and p = "''data/codes.yaml''"
        and env = "ex_env [(''root/data/20251030_codes.yaml'', VDict []),
              (''root/data/codes.json'', ex_flat)]"
        and found_path = "''root/data/20251030_codes.yaml''" and data = "VDict []"]
    by (simp add: ex_reg_sel ex_env_sel ex_paths)
  from a b show ?thesis by simp
qed

text \<open>
  C3. For \<^verbatim>\<open>school_boards\<close>, known, with a string path and not cached, the two files
  \<^verbatim>\<open>data/school_boards_with_acronyms.json\<close> and \<^verbatim>\<open>data/20251030_school_boards.json\<close> are
  tried in this order. The first is returned and cached when it exists and its records
  are not empty. When the first is missing, or exists with empty records, the second is
  returned and cached if it exists with records that are not empty; otherwise the load
  is absence.
\<close>

theorem load_standard_data_school_boards:
  assumes "data_cache reg ''school_boards'' = None"
    and "get_standard reg ''school_boards'' = Some st"
    and "path st = VStr p"
    and "p1 = path_join env (path_join env (registry_path reg) ''data'') ''school_boards_with_acronyms.json''"
    and "p2 = path_join env (path_join env (registry_path reg) ''data'') ''20251030_school_boards.json''"
  shows
    "(path_exists env p1 \<and> open_json env p1 = Inr d1 \<and> get_data_records d1 = Inr r1 \<and> truthy r1 \<longrightarrow>
        load_standard_data env reg ''school_boards'' =
          (Inr (Some d1), reg\<lparr>data_cache := (data_cache reg)(''school_boards'' \<mapsto> d1)\<rparr>)) \<and>
     ((\<not> path_exists env p1 \<or>
        (open_json env p1 = Inr d1 \<and> get_data_records d1 = Inr r1 \<and> \<not> truthy r1)) \<longrightarrow>
        (path_exists env p2 \<and> open_json env p2 = Inr d2 \<and> get_data_records d2 = Inr r2 \<and> truthy r2 \<longrightarrow>
           load_standard_data env reg ''school_boards'' =
             (Inr (Some d2), reg\<lparr>data_cache := (data_cache reg)(''school_boards'' \<mapsto> d2)\<rparr>)) \<and>
        ((\<not> path_exists env p2 \<or>
           (open_json env p2 = Inr d2 \<and> get_data_records d2 = Inr r2 \<and> \<not> truthy r2)) \<longrightarrow>
           load_standard_data env reg ''school_boards'' = (Inr None, reg)))"
proof -
  have l: "load_standard_data env reg ''school_boards'' =
      store reg ''school_boards'' (try_json_paths env [p1, p2])"
    using load_miss[OF assms(1) assms(2) assms(3), of env] assms(4,5)
    by (simp add: resolve_school_boards json_paths_def)
  show ?thesis
    unfolding l try_json_paths_two try_json_paths_one by auto
qed

theorem load_standard_data_school_boards_witness:
  "load_standard_data
     (ex_env [(''root/data/school_boards_with_acronyms.json'', ex_flat),
              (''root/data/20251030_school_boards.json'', ex_columnar)])
     ex_reg ''school_boards'' =
     (Inr (Some ex_flat), ex_reg\<lparr>data_cache := [''school_boards'' \<mapsto> ex_flat]\<rparr>) \<and>
   load_standard_data
     (ex_env [(''root/data/school_boards_with_acronyms.json'', ex_empty),
              (''root/data/20251030_school_boards.json'', ex_flat)])
     ex_reg ''school_boards'' =
     (Inr (Some ex_flat), ex_reg\<lparr>data_cache := [''school_boards'' \<mapsto> ex_flat]\<rparr>) \<and>
   load_standard_data (ex_env [(''root/data/20251030_school_boards.json'', ex_flat)])
     ex_reg ''school_boards'' =
     (Inr (Some ex_flat), ex_reg\<lparr>data_cache := [''school_boards'' \<mapsto> ex_flat]\<rparr>) \<and>
   load_standard_data
     (ex_env [(''root/data/school_boards_with_acronyms.json'', ex_empty),
              (''root/data/school_boards.yaml'', ex_flat)])
     ex_reg ''school_boards'' = (Inr None, ex_reg)"
proof -
  have emp: "get_data_records ex_empty = Inr (VList [])"
    by (simp add: get_data_records_def ex_empty_def is_nested_def)
  note inst = load_standard_data_school_boards[where reg = ex_reg
      and st = "ex_std ''school_boards'' ''Boards'' ''data/school_boards.yaml''"
      and p = "''data/school_boards.yaml''"
      and ?p1.0 = "''root/data/school_boards_with_acronyms.json''"
      and ?p2.0 = "''root/data/20251030_school_boards.json''"]
  have a: "load_standard_data
     (ex_env [(''root/data/school_boards_with_acronyms.json'', ex_flat),
              (''root/data/20251030_school_boards.json'', ex_columnar)])
     ex_reg ''school_boards'' =
     (Inr (Some ex_flat), ex_reg\<lparr>data_cache := [''school_boards'' \<mapsto> ex_flat]\<rparr>)"
    using inst[where env = "ex_env [(''root/data/school_boards_with_acronyms.json'', ex_flat),
              (''root/data/20251030_school_boards.json'', ex_columnar)]"
        and ?d1.0 = ex_flat and ?r1.0 = "VList ex_records"]
    by (simp add: ex_reg_sel ex_env_sel ex_flat_records ex_records_def)
  have b: "load_standard_data
     (ex_env [(''root/data/school_boards_with_acronyms.json'', ex_empty),
              (''root/data/20251030_school_boards.json'', ex_flat)])
     ex_reg ''school_boards'' =
     (Inr (Some ex_flat), ex_reg\<lparr>data_cache := [''school_boards'' \<mapsto> ex_flat]\<rparr>)"
    using inst[where env = "ex_env [(''root/data/school_boards_with_acronyms.json'', ex_empty),
              (''root/data/20251030_school_boards.json'', ex_flat)]"
        and ?d1.0 = ex_empty and ?r1.0 = "VList []" and ?d2.0 = ex_flat and ?r2.0 = "VList ex_records"]
    by (simp add: ex_reg_sel ex_env_sel ex_flat_records ex_records_def emp)
  have c: "load_standard_data (ex_env [(''root/data/20251030_school_boards.json'', ex_flat)])
     ex_reg ''school_boards'' =
     (Inr (Some ex_flat), ex_reg\<lparr>data_cache := [''school_boards'' \<mapsto> ex_flat]\<rparr>)"
    using inst[where env = "ex_env [(''root/data/20251030_school_boards.json'', ex_flat)]"
        and ?d2.0 = ex_flat and ?r2.0 = "VList ex_records"]
    by (simp add: ex_reg_sel ex_env_sel ex_flat_records ex_records_def)
  have d: "load_standard_data
     (ex_env [(''root/data/school_boards_with_acronyms.json'', ex_empty),
              (''root/data/school_boards.yaml'', ex_flat)])
     ex_reg ''school_boards'' = (Inr None, ex_reg)"
    using inst[where env = "ex_env [(''root/data/school_boards_with_acronyms.json'', ex_empty),
              (''root/data/school_boards.yaml'', ex_flat)]"
        and ?d1.0 = ex_empty and ?r1.0 = "VList []"]
    by (simp add: ex_reg_sel ex_env_sel emp)
  from a b c d show ?thesis by simp
qed

subsection \<open>Search\<close>

lemma starts_with_Nil [simp]: "starts_with [] s"
  by (cases s) simp_all

lemma str_contains_Nil [simp]: "str_contains [] s"
  by (cases s) simp_all

lemma lower_upper_char: "lower_char (upper_char c) = lower_char c"
  by (auto simp: lower_char_def upper_char_def Let_def)

lemma lower_upper: "lower (upper q) = lower q"
  by (simp add: lower_def upper_def lower_upper_char)

lemma efilter_matches:
  "efilter (matches ql) (map VDict ds) =
     Inr (map VDict (filter (\<lambda>kvs. str_contains ql (lower (record_text (map snd kvs)))) ds))"
  by (induction ds) (simp_all add: matches_def)

lemma gdr_truthy: "get_data_records data = Inr r \<Longrightarrow> truthy r \<Longrightarrow> truthy data"
  by (auto simp: get_data_records_def split: if_splits)

lemma search_loaded:
  assumes "load_standard_data env reg sid = (Inr (Some data), reg')"
    and "get_data_records data = Inr (VList (map VDict ds))"
  shows "search_records env reg sid query =
     (Inr (map VDict (filter (\<lambda>kvs. str_contains (lower query) (lower (record_text (map snd kvs)))) ds)), reg')"
proof (cases "ds = []")
  case True
  with assms show ?thesis by (simp add: search_records_def)
next
  case False
  with assms(2) have "truthy data" using gdr_truthy[of data "VList (map VDict ds)"] by simp
  with assms False show ?thesis by (simp add: search_records_def efilter_matches)
qed

lemma values_rename:
  "matches ql (VDict (map (\<lambda>kv. (f (fst kv), snd kv)) kvs)) = matches ql (VDict kvs)"
  by (simp add: matches_def comp_def)

lemma ex_zero_records: "get_data_records ex_zero = Inr (VList [VDict [(KStr ''code'', VInt 0)]])"
  by (simp add: get_data_records_def ex_zero_def is_nested_def)

lemma ex_load_zero:
  "load_standard_data (ex_env [(''root/data/codes.yaml'', ex_zero)]) ex_reg ''codes'' =
     (Inr (Some ex_zero), ex_reg\<lparr>data_cache := [''codes'' \<mapsto> ex_zero]\<rparr>)"
  by (simp add: load_standard_data_def ex_reg_sel resolve_def ex_paths load_found_def ex_env_sel
      ex_zero_records) (simp add: ex_zero_def)

lemma ex_lower: "lower ''abc'' = ''abc''" "lower ''ABC'' = ''abc''" "upper ''abc'' = ''ABC''"
  "lower ''abcdef'' = ''abcdef''" "lower ''xyz'' = ''xyz''"
  by code_simp+

lemma unknown_not_cached:
  assumes "reachable reg" and "KStr sid \<notin> fst ` set (standards reg)"
  shows "load_standard_data env reg sid = (Inr None, reg)"
proof -
  have g: "get_standard reg sid = None"
    using assms(2) by (simp add: get_standard_def dict_get_KStr_None)
  have "data_cache reg sid = None"
    using reachable_cache_known[OF assms(1), of sid] g by (cases "data_cache reg sid") auto
  then show ?thesis using g by (rule load_unknown)
qed

text \<open>
  C5 as stated fails on a value that is not null but false in
  Python's sense: the record \<^verbatim>\<open>{"code": 0}\<close> has the text \<^verbatim>\<open>0\<close> in the specification's
  reading and matches the query \<^verbatim>\<open>0\<close> there, and the source leaves the value out and
  returns no record.
\<close>

theorem search_records_zero_value:
  "fst (search_records (ex_env [(''root/data/codes.yaml'', ex_zero)]) ex_reg ''codes'' ''0'') = Inr [] \<and>
   spec_matches ''0'' [(KStr ''code'', VInt 0)]"
proof -
  have "search_records (ex_env [(''root/data/codes.yaml'', ex_zero)]) ex_reg ''codes'' ''0'' =
      (Inr [], ex_reg\<lparr>data_cache := [''codes'' \<mapsto> ex_zero]\<rparr>)"
    using search_loaded[OF ex_load_zero, of "[[(KStr ''code'', VInt 0)]]" "''0''"] ex_zero_records
    by (simp add: record_text_def lower_def)
  moreover have "spec_matches ''0'' [(KStr ''code'', VInt 0)]"
    by code_simp
  ultimately show ?thesis by simp
qed

text \<open>
  C5. For a loaded document whose normalized records are mappings, and every query,
  \<open>search_records\<close> returns, in order, the records for which the lowered query is a
  substring of the lowered text made of the string representations of the record's
  values that are true in Python's sense (not null, not zero, not false, not empty),
  joined by single spaces. Only the values enter this text, so renaming the keys of a
  record changes nothing; and for an ASCII query the uppercased query returns the same.
\<close>

theorem search_records_subsequence:
  assumes "load_standard_data env reg standard_id = (Inr (Some data), reg')"
    and "get_data_records data = Inr (VList (map VDict ds))"
  shows "search_records env reg standard_id query =
      (Inr (map VDict
         (filter (\<lambda>kvs. str_contains (lower query)
                     (lower (join '' '' (map str (filter truthy (map snd kvs)))))) ds)), reg') \<and>
    (is_ascii query \<longrightarrow>
       search_records env reg standard_id (upper query) = search_records env reg standard_id query) \<and>
    (\<forall>f kvs. matches (lower query) (VDict (map (\<lambda>kv. (f (fst kv), snd kv)) kvs)) =
       matches (lower query) (VDict kvs))"
proof -
  note s = search_loaded[OF assms]
  have "search_records env reg standard_id (upper query) = search_records env reg standard_id query"
    by (simp add: s lower_upper)
  then show ?thesis using s[of query] by (simp add: record_text_def values_rename)
qed

theorem search_records_subsequence_witness:
  "search_records (ex_env ex_disk) ex_reg ''codes'' ''abc'' =
     (Inr [VDict [(KStr ''name'', VStr ''abcdef'')]], ex_reg\<lparr>data_cache := [''codes'' \<mapsto> ex_flat]\<rparr>) \<and>
   search_records (ex_env ex_disk) ex_reg ''codes'' ''ABC'' =
     search_records (ex_env ex_disk) ex_reg ''codes'' ''abc''"
proof -
  have r: "get_data_records ex_flat =
      Inr (VList (map VDict [[(KStr ''name'', VStr ''abcdef'')], [(KStr ''name'', VStr ''xyz'')]]))"
    by (simp add: ex_flat_records ex_records_def)
  have a: "is_ascii ''abc''" by code_simp
  note t = search_records_subsequence[OF ex_load_codes r, of "''abc''"]
  have 1: "search_records (ex_env ex_disk) ex_reg ''codes'' ''abc'' =
     (Inr [VDict [(KStr ''name'', VStr ''abcdef'')]], ex_reg\<lparr>data_cache := [''codes'' \<mapsto> ex_flat]\<rparr>)"
    using t[THEN conjunct1] by (simp add: ex_lower)
  have 2: "search_records (ex_env ex_disk) ex_reg ''codes'' ''ABC'' =
     search_records (ex_env ex_disk) ex_reg ''codes'' ''abc''"
    using t[THEN conjunct2, THEN conjunct1] a by (simp add: ex_lower)
  from 1 2 show ?thesis by simp
qed

text \<open>
  C1 as stated fails for the empty query: the empty string is a
  substring of every text, and the search returns every record.
\<close>

theorem search_records_empty_query:
  "fst (search_records (ex_env ex_disk) ex_reg ''codes'' []) =
     Inr [VDict [(KStr ''name'', VStr ''abcdef'')], VDict [(KStr ''name'', VStr ''xyz'')]]"
  using search_loaded[OF ex_load_codes, of "[[(KStr ''name'', VStr ''abcdef'')], [(KStr ''name'', VStr ''xyz'')]]" "[]"]
  by (simp add: ex_flat_records ex_records_def lower_def)

text \<open>
  C1. With the empty query, \<open>search_records\<close> returns all the normalized records of a
  loaded document (records that are mappings). With an id that is not a key of the
  mapping of standards it returns the empty list, for every query.
\<close>

theorem search_records_empty_or_unknown:
  "(load_standard_data env reg standard_id = (Inr (Some data), reg') \<and>
      get_data_records data = Inr (VList (map VDict ds)) \<longrightarrow>
      search_records env reg standard_id [] = (Inr (map VDict ds), reg')) \<and>
   (reachable reg \<and> KStr standard_id \<notin> fst ` set (standards reg) \<longrightarrow>
      search_records env reg standard_id query = (Inr [], reg))"
proof (intro conjI impI)
  assume "load_standard_data env reg standard_id = (Inr (Some data), reg') \<and>
      get_data_records data = Inr (VList (map VDict ds))"
  then show "search_records env reg standard_id [] = (Inr (map VDict ds), reg')"
    using search_loaded[of env reg standard_id data reg' ds "[]"] by (simp add: lower_def)
next
  assume "reachable reg \<and> KStr standard_id \<notin> fst ` set (standards reg)"
  then have "load_standard_data env reg standard_id = (Inr None, reg)"
    using unknown_not_cached by blast
  then show "search_records env reg standard_id query = (Inr [], reg)"
    by (simp add: search_records_def)
qed

theorem search_records_empty_or_unknown_witness:
  "search_records (ex_env ex_disk) ex_reg ''codes'' [] =
     (Inr ex_records, ex_reg\<lparr>data_cache := [''codes'' \<mapsto> ex_flat]\<rparr>) \<and>
   search_records (ex_env ex_disk) ex_reg ''nope'' ''abc'' = (Inr [], ex_reg)"
proof -
  have r: "get_data_records ex_flat =
      Inr (VList (map VDict [[(KStr ''name'', VStr ''abcdef'')], [(KStr ''name'', VStr ''xyz'')]]))"
    by (simp add: ex_flat_records ex_records_def)
  have re: "reachable ex_reg" using ex_init by (rule reach_init)
  have k: "KStr ''nope'' \<notin> fst ` set (standards ex_reg)" by (simp add: ex_reg_def)
  have 1: "search_records (ex_env ex_disk) ex_reg ''codes'' [] =
     (Inr ex_records, ex_reg\<lparr>data_cache := [''codes'' \<mapsto> ex_flat]\<rparr>)"
    using search_records_empty_or_unknown[THEN conjunct1, of "ex_env ex_disk" ex_reg "''codes''" ex_flat
        "ex_reg\<lparr>data_cache := [''codes'' \<mapsto> ex_flat]\<rparr>"
        "[[(KStr ''name'', VStr ''abcdef'')], [(KStr ''name'', VStr ''xyz'')]]"]
      ex_load_codes r
    by (simp add: ex_records_def)
  have 2: "search_records (ex_env ex_disk) ex_reg ''nope'' ''abc'' = (Inr [], ex_reg)"
    using search_records_empty_or_unknown[THEN conjunct2, of ex_reg "''nope''" "ex_env ex_disk" "''abc''"]
      re k
    by simp
  from 1 2 show ?thesis by simp
qed

subsection \<open>Statistics\<close>

lemma ex_load_empty_file:
  "load_standard_data (ex_env [(''root/data/codes.yaml'', ex_empty)]) ex_reg ''codes'' =
     (Inr None, ex_reg)"
  by (simp add: load_standard_data_def ex_reg_sel resolve_def ex_paths load_found_def ex_env_sel
      get_data_records_def is_nested_def ex_empty_def)






subsection \<open>The manifest\<close>

lemma dict_get_map_of:
  "dict_get d k = map_of (map (\<lambda>kv. (canon (fst kv), snd kv)) d) (canon k)"
  by (induction d) (auto simp: key_eq_def)

lemma map_snd_map_of:
  "distinct (map fst xs) \<Longrightarrow> map snd xs = map (\<lambda>c. the (map_of xs c)) (map fst xs)"
proof (induction xs)
  case Nil
  then show ?case by simp
next
  case (Cons x xs)
  obtain k v where x: "x = (k, v)" by (cases x)
  from Cons.prems x have k: "k \<notin> fst ` set xs" and d: "distinct (map fst xs)" by auto
  have "map (\<lambda>c. the (map_of ((k, v) # xs) c)) (map fst xs) = map (\<lambda>c. the (map_of xs c)) (map fst xs)"
  proof (rule map_cong[OF refl])
    fix c assume "c \<in> set (map fst xs)"
    with k have "c \<noteq> k" by auto
    then show "the (map_of ((k, v) # xs) c) = the (map_of xs c)" by simp
  qed
  with Cons.IH[OF d] x show ?case by simp
qed

lemma dict_set_keys:
  "map (\<lambda>kv. canon (fst kv)) (dict_set d k v) =
     (if canon k \<in> set (map (\<lambda>kv. canon (fst kv)) d) then map (\<lambda>kv. canon (fst kv)) d
      else map (\<lambda>kv. canon (fst kv)) d @ [canon k])"
  by (induction d) (force simp: key_eq_def)+

lemma dict_set_map_of:
  "map_of (map (\<lambda>kv. (canon (fst kv), snd kv)) (dict_set d k v)) c =
     (if c = canon k then Some v else map_of (map (\<lambda>kv. (canon (fst kv), snd kv)) d) c)"
  by (induction d) (auto simp: key_eq_def)

lemma dict_set_new:
  "canon k \<notin> set (map (\<lambda>kv. canon (fst kv)) d) \<Longrightarrow> dict_set d k v = d @ [(k, v)]"
  by (induction d) (auto simp: key_eq_def)

lemma first_occurrences_snoc:
  "rev (remdups (rev (xs @ [x]))) =
     (if x \<in> set xs then rev (remdups (rev xs)) else rev (remdups (rev xs)) @ [x])"
  by simp

lemma fold_dict_set_keys:
  "map (\<lambda>kv. canon (fst kv)) (foldl (\<lambda>d kv. dict_set d (fst kv) (snd kv)) [] kss) =
     rev (remdups (rev (map (\<lambda>kv. canon (fst kv)) kss)))"
proof (induction kss rule: rev_induct)
  case Nil
  then show ?case by simp
next
  case (snoc x kss)
  have "set (rev (remdups (rev (map (\<lambda>kv. canon (fst kv)) kss)))) = set (map (\<lambda>kv. canon (fst kv)) kss)"
    by simp
  with snoc show ?case by (simp add: dict_set_keys)
qed

lemma fold_dict_set_map_of:
  "map_of (map (\<lambda>kv. (canon (fst kv), snd kv)) (foldl (\<lambda>d kv. dict_set d (fst kv) (snd kv)) [] kss)) c =
     map_of (rev (map (\<lambda>kv. (canon (fst kv), snd kv)) kss)) c"
  by (induction kss rule: rev_induct) (simp_all add: dict_set_map_of)

lemma fold_dict_set_distinct:
  "distinct (map (\<lambda>kv. canon (fst kv)) kss) \<Longrightarrow>
     foldl (\<lambda>d kv. dict_set d (fst kv) (snd kv)) [] kss = kss"
proof (induction kss rule: rev_induct)
  case Nil
  then show ?case by simp
next
  case (snoc x kss)
  then have "canon (fst x) \<notin> set (map (\<lambda>kv. canon (fst kv)) kss)" by auto
  with snoc show ?case using dict_set_new[of "fst x" kss "snd x"] by simp
qed

lemma fold_dict_set_values:
  "map snd (foldl (\<lambda>d kv. dict_set d (fst kv) (snd kv)) [] kss) =
     map (\<lambda>c. the (map_of (rev (map (\<lambda>kv. (canon (fst kv), snd kv)) kss)) c))
       (rev (remdups (rev (map (\<lambda>kv. canon (fst kv)) kss))))"
proof -
  let ?D = "foldl (\<lambda>d kv. dict_set d (fst kv) (snd kv)) [] kss"
  let ?C = "map (\<lambda>kv. (canon (fst kv), snd kv)) ?D"
  have k: "map fst ?C = rev (remdups (rev (map (\<lambda>kv. canon (fst kv)) kss)))"
    using fold_dict_set_keys[of kss] by (simp add: comp_def)
  then have "distinct (map fst ?C)" by simp
  then have a: "map snd ?C = map (\<lambda>c. the (map_of ?C c)) (map fst ?C)" by (rule map_snd_map_of)
  have b: "map snd ?C = map snd ?D" by (simp add: comp_def)
  have c: "(\<lambda>c. the (map_of ?C c)) =
      (\<lambda>c. the (map_of (rev (map (\<lambda>kv. (canon (fst kv), snd kv)) kss)) c))"
    by (rule ext) (simp only: fold_dict_set_map_of)
  from a show ?thesis unfolding b c k .
qed

lemma map_of_rev_last:
  "i < length xs \<Longrightarrow> \<forall>j. i < j \<and> j < length xs \<longrightarrow> fst (xs ! j) \<noteq> fst (xs ! i) \<Longrightarrow>
     map_of (rev xs) (fst (xs ! i)) = Some (snd (xs ! i))"
proof (induction xs rule: rev_induct)
  case Nil
  then show ?case by simp
next
  case (snoc x xs)
  show ?case
  proof (cases "i = length xs")
    case True
    then show ?thesis by simp
  next
    case False
    with snoc.prems(1) have i: "i < length xs" by simp
    from snoc.prems(2)[rule_format, of "length xs"] i
    have "fst ((xs @ [x]) ! length xs) \<noteq> fst ((xs @ [x]) ! i)" by simp
    then have ne: "fst x \<noteq> fst (xs ! i)" using i by (simp add: nth_append)
    have "\<forall>j. i < j \<and> j < length xs \<longrightarrow> fst (xs ! j) \<noteq> fst (xs ! i)"
    proof (intro allI impI)
      fix j assume j: "i < j \<and> j < length xs"
      with snoc.prems(2)[rule_format, of j] have "fst ((xs @ [x]) ! j) \<noteq> fst ((xs @ [x]) ! i)" by simp
      with j i show "fst (xs ! j) \<noteq> fst (xs ! i)" by (simp add: nth_append)
    qed
    from snoc.IH[OF i this] ne i show ?thesis by (simp add: nth_append)
  qed
qed

lemma add_items_fold:
  "emap standard_of_item items = Inr sts \<Longrightarrow> emap (\<lambda>s. hash_key (std_id s)) sts = Inr ks \<Longrightarrow>
     add_items d items = Inr (foldl (\<lambda>d kv. dict_set d (fst kv) (snd kv)) d (zip ks sts))"
proof (induction items arbitrary: d sts ks)
  case Nil
  then show ?case by simp
next
  case (Cons item items)
  from Cons.prems(1) obtain s sts' where s: "standard_of_item item = Inr s"
    and sts': "emap standard_of_item items = Inr sts'" and sts: "sts = s # sts'"
    by (auto split: sum.splits)
  from Cons.prems(2) sts obtain k ks' where k: "hash_key (std_id s) = Inr k"
    and ks': "emap (\<lambda>s. hash_key (std_id s)) sts' = Inr ks'" and ks: "ks = k # ks'"
    by (auto split: sum.splits)
  from Cons.IH[OF sts' ks', of "dict_set d k s"] s k sts ks show ?case by simp
qed

lemma emap_length: "emap f xs = Inr ys \<Longrightarrow> length ys = length xs"
  by (induction xs arbitrary: ys) (auto split: sum.splits)

lemma standard_of_item_dict:
  "standard_of_item (VDict kvs) =
     Inr \<lparr>std_id = (case dict_get kvs (KStr ''id'') of None \<Rightarrow> VStr [] | Some v \<Rightarrow> v),
          title = (case dict_get kvs (KStr ''title'') of None \<Rightarrow> VStr [] | Some v \<Rightarrow> v),
          description = (case dict_get kvs (KStr ''description'') of None \<Rightarrow> VStr [] | Some v \<Rightarrow> v),
          path = (case dict_get kvs (KStr ''path'') of None \<Rightarrow> VStr [] | Some v \<Rightarrow> v),
          version = (case dict_get kvs (KStr ''version'') of None \<Rightarrow> VStr [] | Some v \<Rightarrow> v),
          maintainer = (case dict_get kvs (KStr ''maintainer'') of None \<Rightarrow> VStr [] | Some v \<Rightarrow> v),
          last_updated = (case dict_get kvs (KStr ''last_updated'') of None \<Rightarrow> VStr [] | Some v \<Rightarrow> v),
          source = (case dict_get kvs (KStr ''source'') of None \<Rightarrow> VNone | Some v \<Rightarrow> v),
          tags = (case dict_get kvs (KStr ''tags'') of None \<Rightarrow> VList [] | Some v \<Rightarrow> v)\<rparr>"
  by (simp add: standard_of_item_def)

lemma init_manifest:
  assumes "path_exists env (path_join env root ''registry.yaml'')"
    and "open_yaml env (path_join env root ''registry.yaml'') = Inr (VDict m)"
    and "dict_get m (KStr ''registry'') = Some (VList items)"
    and "emap standard_of_item items = Inr sts"
    and "emap (\<lambda>s. hash_key (std_id s)) sts = Inr ks"
  shows "init env root =
     Inr \<lparr>registry_path = root,
          standards = foldl (\<lambda>d kv. dict_set d (fst kv) (snd kv)) [] (zip ks sts),
          data_cache = Map.empty\<rparr>"
  using assms add_items_fold[OF assms(4) assms(5), of "[]"]
  by (simp add: init_def load_registry_def)

text \<open>
  C8. For a manifest file that exists and parses to a mapping with a list of entries
  under \<^verbatim>\<open>"registry"\<close>, every entry a mapping with a hashable id: the constructor returns
  a registry in which a lookup finds the descriptor of the last entry with that id
  (an entry with no later entry of the same id is the one returned), \<open>list_standards\<close>
  lists the ids in the order of their first occurrence in the manifest, each with the
  descriptor of its last entry, which for a manifest without repeated ids is the list
  of all descriptors in manifest order; and the descriptor of an entry has the values
  of the entry, with the empty string, the empty list or None for a missing field.
\<close>

theorem manifest_last_wins:
  assumes "path_exists env (path_join env root ''registry.yaml'')"
    and "open_yaml env (path_join env root ''registry.yaml'') = Inr (VDict m)"
    and "dict_get m (KStr ''registry'') = Some (VList items)"
    and "emap standard_of_item items = Inr sts"
    and "emap (\<lambda>s. hash_key (std_id s)) sts = Inr ks"
  shows "\<exists>reg. init env root = Inr reg \<and>
    (\<forall>k. dict_get (standards reg) k = map_of (rev (zip (map canon ks) sts)) (canon k)) \<and>
    (\<forall>sid. get_standard reg sid = map_of (rev (zip (map canon ks) sts)) (KStr sid)) \<and>
    (\<forall>i. i < length sts \<and> (\<forall>j. i < j \<and> j < length sts \<longrightarrow> canon (ks ! j) \<noteq> canon (ks ! i)) \<longrightarrow>
       dict_get (standards reg) (ks ! i) = Some (sts ! i)) \<and>
    list_standards reg =
      map (\<lambda>c. the (map_of (rev (zip (map canon ks) sts)) c)) (rev (remdups (rev (map canon ks)))) \<and>
    (distinct (map canon ks) \<longrightarrow> list_standards reg = sts) \<and>
    (\<forall>kvs. standard_of_item (VDict kvs) =
       Inr \<lparr>std_id = (case dict_get kvs (KStr ''id'') of None \<Rightarrow> VStr [] | Some v \<Rightarrow> v),
            title = (case dict_get kvs (KStr ''title'') of None \<Rightarrow> VStr [] | Some v \<Rightarrow> v),
            description = (case dict_get kvs (KStr ''description'') of None \<Rightarrow> VStr [] | Some v \<Rightarrow> v),
            path = (case dict_get kvs (KStr ''path'') of None \<Rightarrow> VStr [] | Some v \<Rightarrow> v),
            version = (case dict_get kvs (KStr ''version'') of None \<Rightarrow> VStr [] | Some v \<Rightarrow> v),
            maintainer = (case dict_get kvs (KStr ''maintainer'') of None \<Rightarrow> VStr [] | Some v \<Rightarrow> v),
            last_updated = (case dict_get kvs (KStr ''last_updated'') of None \<Rightarrow> VStr [] | Some v \<Rightarrow> v),
            source = (case dict_get kvs (KStr ''source'') of None \<Rightarrow> VNone | Some v \<Rightarrow> v),
            tags = (case dict_get kvs (KStr ''tags'') of None \<Rightarrow> VList [] | Some v \<Rightarrow> v)\<rparr>)"
proof -
  let ?kss = "zip ks sts"
  let ?D = "foldl (\<lambda>d kv. dict_set d (fst kv) (snd kv)) [] ?kss"
  let ?L = "rev (zip (map canon ks) sts)"
  define reg where "reg = \<lparr>registry_path = root, standards = ?D, data_cache = Map.empty\<rparr>"
  have len: "length ks = length sts" using emap_length[OF assms(5)] .
  have z1: "map (\<lambda>kv. (canon (fst kv), snd kv)) ?kss = zip (map canon ks) sts"
    by (simp add: zip_map1 case_prod_beta)
  have "map fst ?kss = ks" using len by simp
  then have "map canon (map fst ?kss) = map canon ks" by simp
  then have z2: "map (\<lambda>kv. canon (fst kv)) ?kss = map canon ks" by (simp add: comp_def)
  have st: "standards reg = ?D" by (simp add: reg_def)
  have i: "init env root = Inr reg" using init_manifest[OF assms] by (simp add: reg_def)
  have g: "dict_get (standards reg) k = map_of ?L (canon k)" for k
    unfolding st dict_get_map_of[of ?D k] fold_dict_set_map_of z1 ..
  have gs: "get_standard reg sid = map_of ?L (KStr sid)" for sid
    using g[of "KStr sid"] by (simp add: get_standard_def)
  have lw: "dict_get (standards reg) (ks ! i) = Some (sts ! i)"
    if "i < length sts \<and> (\<forall>j. i < j \<and> j < length sts \<longrightarrow> canon (ks ! j) \<noteq> canon (ks ! i))" for i
  proof -
    let ?xs = "zip (map canon ks) sts"
    from that len have a: "i < length ?xs" by simp
    from that len have b: "\<forall>j. i < j \<and> j < length ?xs \<longrightarrow> fst (?xs ! j) \<noteq> fst (?xs ! i)" by simp
    from map_of_rev_last[OF a b] that len show ?thesis by (simp add: g)
  qed
  have ls: "list_standards reg = map (\<lambda>c. the (map_of ?L c)) (rev (remdups (rev (map canon ks))))"
    unfolding list_standards_def st fold_dict_set_values z1 z2 ..
  have nd: "list_standards reg = sts" if "distinct (map canon ks)"
  proof -
    from that have "distinct (map (\<lambda>kv. canon (fst kv)) ?kss)" by (simp only: z2)
    then have "?D = ?kss" by (rule fold_dict_set_distinct)
    then show ?thesis using len by (simp add: list_standards_def st)
  qed
  from i g gs lw ls nd standard_of_item_dict show ?thesis by blast
qed

theorem manifest_last_wins_witness:
  "init (ex_env [(''root/registry.yaml'', ex_manifest_dup)]) ''root'' = Inr ex_reg_dup \<and>
   get_standard ex_reg_dup ''codes'' = Some (ex_std ''codes'' ''Second'' ''data/b.yaml'') \<and>
   get_standard ex_reg_dup ''units'' = Some (ex_std ''units'' ''Units'' ''data/u.yaml'') \<and>
   list_standards ex_reg_dup =
     [ex_std ''codes'' ''Second'' ''data/b.yaml'', ex_std ''units'' ''Units'' ''data/u.yaml'']"
proof -
  let ?env = "ex_env [(''root/registry.yaml'', ex_manifest_dup)]"
  let ?items = "[ex_item ''codes'' ''First'' ''data/a.yaml'', ex_item ''units'' ''Units'' ''data/u.yaml'',
      ex_item ''codes'' ''Second'' ''data/b.yaml'']"
  let ?sts = "[ex_std ''codes'' ''First'' ''data/a.yaml'', ex_std ''units'' ''Units'' ''data/u.yaml'',
      ex_std ''codes'' ''Second'' ''data/b.yaml'']"
  let ?ks = "[KStr ''codes'', KStr ''units'', KStr ''codes'']"
  have 1: "path_exists ?env (path_join ?env ''root'' ''registry.yaml'')"
    by (simp add: ex_env_sel)
  have 2: "open_yaml ?env (path_join ?env ''root'' ''registry.yaml'') =
      Inr (VDict [(KStr ''registry'', VList ?items)])"
    by (simp add: ex_env_sel ex_manifest_dup_def)
  have 3: "dict_get [(KStr ''registry'', VList ?items)] (KStr ''registry'') = Some (VList ?items)"
    by simp
  have 4: "emap standard_of_item ?items = Inr ?sts"
    by (simp add: ex_item_def ex_std_def standard_of_item_def)
  have 5: "emap (\<lambda>s. hash_key (std_id s)) ?sts = Inr ?ks"
    by (simp add: ex_std_def)
  from manifest_last_wins[OF 1 2 3 4 5] obtain reg where
    i: "init ?env ''root'' = Inr reg"
    and g: "\<forall>sid. get_standard reg sid = map_of (rev (zip (map canon ?ks) ?sts)) (KStr sid)"
    and l: "list_standards reg =
      map (\<lambda>c. the (map_of (rev (zip (map canon ?ks) ?sts)) c)) (rev (remdups (rev (map canon ?ks))))"
    by blast
  have c: "init ?env ''root'' = Inr ex_reg_dup"
    by (simp add: init_def load_registry_def ex_env_sel ex_manifest_dup_def ex_item_def
        standard_of_item_def ex_reg_dup_def ex_std_def)
  with i have r: "reg = ex_reg_dup" by simp
  from g r have "get_standard ex_reg_dup ''codes'' = Some (ex_std ''codes'' ''Second'' ''data/b.yaml'')"
    and "get_standard ex_reg_dup ''units'' = Some (ex_std ''units'' ''Units'' ''data/u.yaml'')"
    by simp_all
  moreover from l r have "list_standards ex_reg_dup =
     [ex_std ''codes'' ''Second'' ''data/b.yaml'', ex_std ''units'' ''Units'' ''data/u.yaml'']"
    by simp
  ultimately show ?thesis using c by simp
qed

end
